theory Spec2Isabelle
  imports Main "HOL-Library.AList"
begin

section \<open>Python values, exceptions and classes\<close>

text \<open>
  The values the configuration core handles: what \<open>json.load\<close> produces (None, booleans,
  numbers, strings, lists, dictionaries with string keys), and the two kinds of attribute
  value that are not JSON: callables (functions, methods, nested classes) and other
  objects. A dictionary is an association list in insertion order; a float is kept by its
  literal, since the core never computes with one.
\<close>

datatype pyval =
    VNone
  | VBool bool
  | VInt int
  | VFloat string
  | VStr string
  | VList "pyval list"
  | VDict "(string \<times> pyval) list"
  | VCallable string
  | VObject string

text \<open>A declared type (an entry of \<open>get_type_hints(cls)\<close>); only the codec looks inside.\<close>

datatype pytype = TInt | TFloat | TStr | TBool | TList pytype | TNamed string

text \<open>
  The exceptions that occur, each with its message. All are subclasses of \<open>Exception\<close>,
  so \<open>except Exception\<close> catches every one of them.
\<close>

datatype exn =
    OSError string
  | JSONDecodeError string
  | UnicodeDecodeError string
  | AttributeError string
  | TypeError string
  | ValueError string
  | KeyError string
  | RecursionError string

definition quote :: "string \<Rightarrow> string" where
  "quote s = [CHR 0x27] @ s @ [CHR 0x27]"

text \<open>\<open>str(e)\<close>: the message; a \<open>KeyError\<close> prints the repr of its key.\<close>

fun exn_str :: "exn \<Rightarrow> string" where
  "exn_str (OSError m) = m"
| "exn_str (JSONDecodeError m) = m"
| "exn_str (UnicodeDecodeError m) = m"
| "exn_str (AttributeError m) = m"
| "exn_str (TypeError m) = m"
| "exn_str (ValueError m) = m"
| "exn_str (KeyError k) = quote k"
| "exn_str (RecursionError m) = m"

fun type_name :: "pyval \<Rightarrow> string" where
  "type_name VNone = ''NoneType''"
| "type_name (VBool _) = ''bool''"
| "type_name (VInt _) = ''int''"
| "type_name (VFloat _) = ''float''"
| "type_name (VStr _) = ''str''"
| "type_name (VList _) = ''list''"
| "type_name (VDict _) = ''dict''"
| "type_name (VCallable _) = ''function''"
| "type_name (VObject c) = c"

fun callable :: "pyval \<Rightarrow> bool" where
  "callable (VCallable _) = True"
| "callable _ = False"

text \<open>\<open>name.startswith('_')\<close>\<close>

fun startswith_underscore :: "string \<Rightarrow> bool" where
  "startswith_underscore [] = False"
| "startswith_underscore (c # _) = (c = CHR ''_'')"

text \<open>
  A Python function: its qualified name, the number of its positional parameters and its
  body. Calling it with another number of arguments raises \<open>TypeError\<close> before the body
  runs.
\<close>

record pyfunction =
  fn_qualname :: string
  fn_nparams :: nat
  fn_body :: "pyval list \<Rightarrow> exn + pyval"

text \<open>\<open>str(n)\<close> of a natural number, in decimal.\<close>

definition digit_str :: "nat \<Rightarrow> string" where
  "digit_str n =
     (if n = 0 then ''0'' else if n = 1 then ''1'' else if n = 2 then ''2''
      else if n = 3 then ''3'' else if n = 4 then ''4'' else if n = 5 then ''5''
      else if n = 6 then ''6'' else if n = 7 then ''7'' else if n = 8 then ''8'' else ''9'')"

function show_nat :: "nat \<Rightarrow> string" where
  "show_nat n = (if n < 10 then digit_str n else show_nat (n div 10) @ digit_str (n mod 10))"
  by pat_completeness auto
termination
  by (relation "measure id") auto

definition call_function :: "pyfunction \<Rightarrow> pyval list \<Rightarrow> exn + pyval" where
  "call_function f args =
     (if length args \<noteq> fn_nparams f
      then Inl (TypeError (fn_qualname f @ ''() takes '' @ show_nat (fn_nparams f) @
                  '' positional arguments but '' @ show_nat (length args) @ '' were given''))
      else fn_body f args)"

text \<open>
  A class as the core sees it: \<open>__name__\<close>, \<open>__qualname__\<close>, the resolved annotations
  (\<open>get_type_hints(cls)\<close>), the attributes \<open>dir(cls)\<close> lists with the values \<open>getattr\<close>
  gives for them, and the \<open>__setattr__\<close> the class defines, if it defines one.
  An instance is its class and its own \<open>__dict__\<close>.
\<close>

record pyclass =
  cls_name :: string
  cls_qualname :: string
  cls_hints :: "(string \<times> pytype) list"
  cls_attrs :: "(string \<times> pyval) list"
  cls_setattr :: "pyfunction option"

record pyobject =
  obj_class :: pyclass
  obj_dict :: "(string \<times> pyval) list"

text \<open>\<open>getattr(cls, name, default)\<close>\<close>

definition getattr_cls :: "pyclass \<Rightarrow> string \<Rightarrow> pyval \<Rightarrow> pyval" where
  "getattr_cls cls name dflt = (case map_of (cls_attrs cls) name of Some v \<Rightarrow> v | None \<Rightarrow> dflt)"

text \<open>
  \<open>getattr(instance, key)\<close>: the instance's own attribute, else the class attribute;
  \<open>None\<close> here is Python's \<open>AttributeError\<close>, so \<open>hasattr\<close> is \<open>\<noteq> None\<close>.
\<close>

definition getattr_obj :: "pyobject \<Rightarrow> string \<Rightarrow> pyval option" where
  "getattr_obj obj key =
     (case map_of (obj_dict obj) key of
        Some v \<Rightarrow> Some v
      | None \<Rightarrow> map_of (cls_attrs (obj_class obj)) key)"

text \<open>
  \<open>setattr(instance, key, value)\<close>: Python calls \<open>type(instance).__setattr__\<close> with the
  three arguments (instance, key, value). Without an override the value is stored in the
  instance's \<open>__dict__\<close>.
\<close>

definition setattr_obj :: "pyobject \<Rightarrow> string \<Rightarrow> pyval \<Rightarrow> exn + pyobject" where
  "setattr_obj obj key v =
     (case cls_setattr (obj_class obj) of
        None \<Rightarrow> Inr (obj\<lparr>obj_dict := AList.update key v (obj_dict obj)\<rparr>)
      | Some f \<Rightarrow>
          (case call_function f [VObject (cls_name (obj_class obj)), VStr key, v] of
             Inl e \<Rightarrow> Inl e
           | Inr _ \<Rightarrow> Inr obj))"

section \<open>Field discovery\<close>

text \<open>
  \<open>_get_configurable_fields(cls, explicit_fields, instance_defaults)\<close>. The whitelist is a
  set; the list is the order in which the loop meets its names. \<open>field_types\<close> is a
  dictionary, \<open>valid_fields\<close> a set (a list without repetition).
\<close>

fun fields_loop ::
  "pyclass \<Rightarrow> (string \<times> pytype) list \<Rightarrow> (string \<times> pyval) list \<Rightarrow> string list \<Rightarrow>
   (string \<times> pytype) list \<times> string list \<Rightarrow> (string \<times> pytype) list \<times> string list" where
  "fields_loop cls annotations instance_defaults [] acc = acc"
| "fields_loop cls annotations instance_defaults (name # rest) (field_types, valid_fields) =
     (case map_of annotations name of
        None \<Rightarrow> fields_loop cls annotations instance_defaults rest (field_types, valid_fields)
      | Some ty \<Rightarrow>
          if name \<notin> set (map fst instance_defaults)
          then fields_loop cls annotations instance_defaults rest (field_types, valid_fields)
          else if startswith_underscore name
          then fields_loop cls annotations instance_defaults rest (field_types, valid_fields)
          else if callable (getattr_cls cls name VNone)
          then fields_loop cls annotations instance_defaults rest (field_types, valid_fields)
          else fields_loop cls annotations instance_defaults rest
                 (AList.update name ty field_types, List.insert name valid_fields))"

definition get_configurable_fields ::
  "pyclass \<Rightarrow> string list option \<Rightarrow> (string \<times> pyval) list option \<Rightarrow>
   (string \<times> pytype) list \<times> string list" where
  "get_configurable_fields cls explicit_fields instance_defaults =
     (let defaults = (case instance_defaults of None \<Rightarrow> [] | Some d \<Rightarrow> d);
          annotations = cls_hints cls;
          candidates = (case explicit_fields of Some wl \<Rightarrow> wl | None \<Rightarrow> map fst annotations)
      in fields_loop cls annotations defaults candidates ([], []))"

section \<open>The document file\<close>

text \<open>
  What the file at a path can be, as far as the session can tell: it cannot be opened
  (\<open>open\<close> raises \<open>OSError\<close>: no permission, a directory), it opens but reading fails with
  \<open>OSError\<close>, its bytes are not UTF-8 (\<open>UnicodeDecodeError\<close>, a \<open>ValueError\<close> that is no
  \<open>JSONDecodeError\<close>), its text is not JSON, it is a JSON text cut short (a temporary file
  whose writing did not finish), it is a JSON text nested deeper than the parser's
  recursion allows (\<open>RecursionError\<close>), or it is the JSON text of a value.
\<close>

datatype docfile =
  NoAccess | ReadFault | BadEncoding | NotJSON | Truncated | TooDeep | JSONText pyval

type_synonym filesystem = "string \<Rightarrow> docfile option"

fun open_read :: "docfile \<Rightarrow> exn + docfile" where
  "open_read NoAccess = Inl (OSError ''Permission denied'')"
| "open_read f = Inr f"

text \<open>
  Python converts between \<open>int\<close> and decimal text only up to 4300 digits (the default of
  \<open>sys.set_int_max_str_digits\<close>); beyond, the conversion raises a plain \<open>ValueError\<close>, in
  \<open>json.load\<close> as in \<open>json.dump\<close>.
\<close>

definition int_str_ok :: "int \<Rightarrow> bool" where
  "int_str_ok n = (length (show_nat (nat \<bar>n\<bar>)) \<le> 4300)"

definition int_limit_message :: string where
  "int_limit_message = ''Exceeds the limit (4300 digits) for integer string conversion''"

fun ints_within_limit :: "pyval \<Rightarrow> bool" where
  "ints_within_limit (VInt n) = int_str_ok n"
| "ints_within_limit (VList xs) = list_all ints_within_limit xs"
| "ints_within_limit (VDict kvs) = list_all ints_within_limit (map snd kvs)"
| "ints_within_limit _ = True"

text \<open>
  \<open>json.load(f)\<close> on an opened file. Of what it raises, the session catches
  \<open>JSONDecodeError\<close> and \<open>OSError\<close> only.
\<close>

fun json_load :: "docfile \<Rightarrow> exn + pyval" where
  "json_load (JSONText v) =
     (if ints_within_limit v then Inr v else Inl (ValueError int_limit_message))"
| "json_load TooDeep = Inl (RecursionError ''maximum recursion depth exceeded'')"
| "json_load NotJSON = Inl (JSONDecodeError ''Expecting value'')"
| "json_load Truncated = Inl (JSONDecodeError ''Expecting value'')"
| "json_load BadEncoding = Inl (UnicodeDecodeError ''invalid start byte'')"
| "json_load ReadFault = Inl (OSError ''Input/output error'')"
| "json_load NoAccess = Inl (OSError ''Permission denied'')"

text \<open>\<open>except (json.JSONDecodeError, OSError)\<close>\<close>

fun caught_on_load :: "exn \<Rightarrow> bool" where
  "caught_on_load (JSONDecodeError _) = True"
| "caught_on_load (OSError _) = True"
| "caught_on_load _ = False"

text \<open>\<open>d.get(key, default)\<close>: only a dictionary has \<open>get\<close>.\<close>

definition py_get :: "pyval \<Rightarrow> string \<Rightarrow> pyval \<Rightarrow> exn + pyval" where
  "py_get d key dflt =
     (case d of
        VDict kvs \<Rightarrow> Inr (case map_of kvs key of Some v \<Rightarrow> v | None \<Rightarrow> dflt)
      | _ \<Rightarrow> Inl (AttributeError (quote (type_name d) @ '' object has no attribute '' @ quote ''get'')))"

text \<open>\<open>d[key] = v\<close> with a string key: only a dictionary accepts it.\<close>

definition py_setitem :: "pyval \<Rightarrow> string \<Rightarrow> pyval \<Rightarrow> exn + pyval" where
  "py_setitem d key v =
     (case d of
        VDict kvs \<Rightarrow> Inr (VDict (AList.update key v kvs))
      | VList _ \<Rightarrow> Inl (TypeError ''list indices must be integers or slices, not str'')
      | _ \<Rightarrow> Inl (TypeError (quote (type_name d) @ '' object does not support item assignment'')))"

text \<open>
  What \<open>json.dump\<close> raises while it encodes a value, if anything: \<open>TypeError\<close> at the first
  callable or other object it meets, \<open>ValueError\<close> at the first integer beyond the digit
  limit.
\<close>

fun first_error :: "exn option list \<Rightarrow> exn option" where
  "first_error [] = None"
| "first_error (Some e # _) = Some e"
| "first_error (None # rs) = first_error rs"

fun dump_error :: "pyval \<Rightarrow> exn option" where
  "dump_error (VCallable c) =
     Some (TypeError (''Object of type '' @ type_name (VCallable c) @ '' is not JSON serializable''))"
| "dump_error (VObject c) =
     Some (TypeError (''Object of type '' @ type_name (VObject c) @ '' is not JSON serializable''))"
| "dump_error (VInt n) = (if int_str_ok n then None else Some (ValueError int_limit_message))"
| "dump_error (VList xs) = first_error (map dump_error xs)"
| "dump_error (VDict kvs) = first_error (map dump_error (map snd kvs))"
| "dump_error _ = None"

section \<open>The configuration session\<close>

text \<open>
  The value codec (\<open>serialize_value\<close>, \<open>deserialize_value\<close> of \<open>smartjson\<close>) is an external
  collaborator: a parameter of the model. Either function returns or raises.
\<close>

record codec =
  deserialize_value :: "pyval \<Rightarrow> pytype \<Rightarrow> exn + pyval"
  serialize_value :: "pyval \<Rightarrow> pytype \<Rightarrow> exn + pyval"

record session =
  s_readonly :: bool
  s_path :: string
  s_field_types :: "(string \<times> pytype) list"
  s_class_key :: string
  s_fields_to_inject :: "string list"

text \<open>
  What a session reads and changes: the instance, the files, and the lines printed.
  Every operation returns the exception it raised, if any, with the state it left.
\<close>

record state =
  st_obj :: pyobject
  st_fs :: filesystem
  st_out :: "string list"

definition load_warning :: "session \<Rightarrow> string \<Rightarrow> exn \<Rightarrow> string" where
  "load_warning s key e =
     ''[Config] Warning: Failed to load '' @ quote (s_class_key s @ ''.'' @ key) @ '': '' @
     exn_str e @ ''. Using default.''"

definition save_skip :: "session \<Rightarrow> string \<Rightarrow> exn \<Rightarrow> string" where
  "save_skip s key e =
     ''[Config] Skip saving '' @ quote (s_class_key s @ ''.'' @ key) @ '': '' @ exn_str e"

text \<open>
  \<open>__enter__\<close>, lines 74 to 82: the class's block of the document. \<open>open\<close> stands outside
  the \<open>try\<close>; \<open>json.load\<close> and \<open>full_config.get\<close> stand inside it.
\<close>

definition enter_read :: "session \<Rightarrow> filesystem \<Rightarrow> exn + pyval" where
  "enter_read s fs =
     (case fs (s_path s) of
        None \<Rightarrow> Inr (VDict [])
      | Some f \<Rightarrow>
          (case open_read f of
             Inl e \<Rightarrow> Inl e
           | Inr h \<Rightarrow>
               (case (case json_load h of
                        Inl e \<Rightarrow> Inl e
                      | Inr full_config \<Rightarrow> py_get full_config (s_class_key s) (VDict [])) of
                  Inl e \<Rightarrow> if caught_on_load e then Inr (VDict []) else Inl e
                | Inr class_config \<Rightarrow> Inr class_config)))"

text \<open>\<open>__enter__\<close>, lines 84 to 94: the loop over the fields to inject.\<close>

fun enter_loop :: "codec \<Rightarrow> session \<Rightarrow> pyval \<Rightarrow> string list \<Rightarrow> state \<Rightarrow> exn option \<times> state" where
  "enter_loop cd s class_config [] st = (None, st)"
| "enter_loop cd s class_config (key # rest) st =
     (case getattr_obj (st_obj st) key of
        None \<Rightarrow> enter_loop cd s class_config rest st
      | Some default_val \<Rightarrow>
          (case map_of (s_field_types s) key of
             None \<Rightarrow> (Some (KeyError key), st)
           | Some field_type \<Rightarrow>
               (case py_get class_config key default_val of
                  Inl e \<Rightarrow> (Some e, st)
                | Inr raw_val \<Rightarrow>
                    (case (case deserialize_value cd raw_val field_type of
                             Inl e \<Rightarrow> Inl e
                           | Inr injected_val \<Rightarrow> setattr_obj (st_obj st) key injected_val) of
                       Inl e \<Rightarrow>
                         enter_loop cd s class_config rest
                           (st\<lparr>st_out := st_out st @ [load_warning s key e]\<rparr>)
                     | Inr obj' \<Rightarrow>
                         enter_loop cd s class_config rest (st\<lparr>st_obj := obj'\<rparr>)))))"

definition session_enter :: "codec \<Rightarrow> session \<Rightarrow> state \<Rightarrow> exn option \<times> state" where
  "session_enter cd s st =
     (case enter_read s (st_fs st) of
        Inl e \<Rightarrow> (Some e, st)
      | Inr class_config \<Rightarrow> enter_loop cd s class_config (s_fields_to_inject s) st)"

text \<open>\<open>__exit__\<close>, lines 98 to 104: the document read again; here \<open>open\<close> is inside the \<open>try\<close>.\<close>

definition exit_read :: "session \<Rightarrow> filesystem \<Rightarrow> exn + pyval" where
  "exit_read s fs =
     (case fs (s_path s) of
        None \<Rightarrow> Inr (VDict [])
      | Some f \<Rightarrow>
          (case (case open_read f of Inl e \<Rightarrow> Inl e | Inr h \<Rightarrow> json_load h) of
             Inl e \<Rightarrow> if caught_on_load e then Inr (VDict []) else Inl e
           | Inr full_config \<Rightarrow> Inr full_config))"

text \<open>\<open>__exit__\<close>, lines 106 to 113: the new block of the class, and the lines printed.\<close>

fun exit_loop ::
  "codec \<Rightarrow> session \<Rightarrow> pyobject \<Rightarrow> string list \<Rightarrow> (string \<times> pyval) list \<times> string list \<Rightarrow>
   exn option \<times> (string \<times> pyval) list \<times> string list" where
  "exit_loop cd s obj [] (class_block, out) = (None, class_block, out)"
| "exit_loop cd s obj (key # rest) (class_block, out) =
     (case map_of (s_field_types s) key of
        None \<Rightarrow> (Some (KeyError key), class_block, out)
      | Some field_type \<Rightarrow>
          (case (case getattr_obj obj key of
                   None \<Rightarrow> Inl (AttributeError (quote (cls_name (obj_class obj)) @
                                  '' object has no attribute '' @ quote key))
                 | Some val \<Rightarrow> serialize_value cd val field_type) of
             Inl e \<Rightarrow> exit_loop cd s obj rest (class_block, out @ [save_skip s key e])
           | Inr enc \<Rightarrow> exit_loop cd s obj rest (AList.update key enc class_block, out)))"

text \<open>
  \<open>__exit__\<close>, lines 98 to 115: the document to write (\<open>full_config\<close> after line 115), or
  the exception raised on the way, with the lines printed.
\<close>

definition build_document :: "codec \<Rightarrow> session \<Rightarrow> state \<Rightarrow> (exn + pyval) \<times> string list" where
  "build_document cd s st =
     (case exit_read s (st_fs st) of
        Inl e \<Rightarrow> (Inl e, st_out st)
      | Inr full_config \<Rightarrow>
          (case exit_loop cd s (st_obj st) (s_fields_to_inject s) ([], st_out st) of
             (Some e, class_block, out) \<Rightarrow> (Inl e, out)
           | (None, class_block, out) \<Rightarrow>
               (py_setitem full_config (s_class_key s) (VDict class_block), out)))"

text \<open>
  The outcomes of the file operations that the program cannot decide: the name
  \<open>tempfile.mkstemp\<close> picks and whether it fails, whether writing the temporary file fails,
  whether \<open>os.replace\<close> fails. \<open>mkstemp\<close> never returns the name of an existing file.
  \<open>os.unlink\<close> of the temporary file just created is taken to succeed.
\<close>

record io =
  io_tmp_path :: string
  io_mkstemp_fails :: bool
  io_write_fails :: bool
  io_replace_fails :: bool

definition json_dump :: "io \<Rightarrow> pyval \<Rightarrow> exn + docfile" where
  "json_dump io doc =
     (case dump_error doc of
        Some e \<Rightarrow> Inl e
      | None \<Rightarrow>
          if io_write_fails io then Inl (OSError ''No space left on device'')
          else Inr (JSONText doc))"

definition os_replace :: "string \<Rightarrow> string \<Rightarrow> filesystem \<Rightarrow> filesystem" where
  "os_replace src dst fs = (if src = dst then fs else (fs(dst := fs src))(src := None))"

definition os_unlink :: "string \<Rightarrow> filesystem \<Rightarrow> filesystem" where
  "os_unlink p fs = fs(p := None)"

text \<open>\<open>__exit__\<close>, lines 119 to 126.\<close>

definition persist :: "io \<Rightarrow> string \<Rightarrow> pyval \<Rightarrow> filesystem \<Rightarrow> exn option \<times> filesystem" where
  "persist io path full_config fs =
     (let tmp_path = io_tmp_path io in
      if io_mkstemp_fails io \<or> fs tmp_path \<noteq> None
      then (Some (OSError ''No usable temporary file name found''), fs)
      else
        let fs1 = fs(tmp_path \<mapsto> Truncated) in
        (case json_dump io full_config of
           Inl e \<Rightarrow> (Some e, os_unlink tmp_path fs1)
         | Inr text \<Rightarrow>
             let fs2 = fs1(tmp_path \<mapsto> text) in
             if io_replace_fails io
             then (Some (OSError ''Permission denied''), os_unlink tmp_path fs2)
             else (None, os_replace tmp_path path fs2)))"

definition session_exit :: "codec \<Rightarrow> io \<Rightarrow> session \<Rightarrow> state \<Rightarrow> exn option \<times> state" where
  "session_exit cd io s st =
     (case build_document cd s st of
        (Inl e, out) \<Rightarrow> (Some e, st\<lparr>st_out := out\<rparr>)
      | (Inr full_config, out) \<Rightarrow>
          if \<not> s_readonly s
          then (case persist io (s_path s) full_config (st_fs st) of
                  (r, fs') \<Rightarrow> (r, st\<lparr>st_fs := fs', st_out := out\<rparr>))
          else (None, st\<lparr>st_out := out\<rparr>))"

text \<open>\<open>with ConfigSession(...): pass\<close>: \<open>__exit__\<close> runs only if \<open>__enter__\<close> returned.\<close>

definition with_session :: "codec \<Rightarrow> io \<Rightarrow> session \<Rightarrow> state \<Rightarrow> exn option \<times> state" where
  "with_session cd io s st =
     (case session_enter cd s st of
        (Some e, st1) \<Rightarrow> (Some e, st1)
      | (None, st1) \<Rightarrow> session_exit cd io s st1)"

section \<open>The decorator\<close>

record inject =
  inj_conf_path :: string
  inj_fields :: "string list option"
  inj_readonly :: bool

text \<open>
  \<open>Inject.__init__\<close>; the default path \<open>_CONF_FILE\<close> of \<open>constants\<close> is a parameter.
  \<open>set(at) if at else None\<close>: an empty \<open>at\<close> is falsy and becomes \<open>None\<close>.
\<close>

definition Inject_init :: "string \<Rightarrow> string list option \<Rightarrow> string option \<Rightarrow> bool \<Rightarrow> inject" where
  "Inject_init conf_file_default at config_file rdonly =
     \<lparr>inj_conf_path = (case config_file of Some p \<Rightarrow> p | None \<Rightarrow> conf_file_default),
      inj_fields = (case at of
                      None \<Rightarrow> None
                    | Some names \<Rightarrow> if names = [] then None else Some (remdups names)),
      inj_readonly = rdonly\<rparr>"

text \<open>\<open>str\<close> of a value inside an f-string; a string prints as itself.\<close>

fun py_str :: "pyval \<Rightarrow> string" where
  "py_str (VStr s) = s"
| "py_str v = ''<'' @ type_name v @ ''>''"

text \<open>The inner function \<open>protect(name, value)\<close> of \<open>__protect_class\<close>: two parameters.\<close>

definition protect :: pyfunction where
  "protect =
     \<lparr>fn_qualname = ''Inject.__protect_class.<locals>.protect'',
      fn_nparams = 2,
      fn_body = (\<lambda>args. case args of
                   name # _ \<Rightarrow> Inl (AttributeError (''property '' @ py_str name @
                                   '' cannot set, because this class is read-only.''))
                 | [] \<Rightarrow> Inl (TypeError ''protect() missing arguments''))\<rparr>"

definition protect_class :: "pyclass \<Rightarrow> pyclass" where
  "protect_class need_protect = need_protect\<lparr>cls_setattr := Some protect\<rparr>"

text \<open>
  \<open>Inject.__call__\<close>: the class it returns. Its \<open>__init__\<close> is \<open>new_init\<close> below, closed
  over this class.
\<close>

definition Inject_call :: "inject \<Rightarrow> pyclass \<Rightarrow> pyclass" where
  "Inject_call deco cls = (if inj_readonly deco then protect_class cls else cls)"

text \<open>Lines 151 to 157: the class attributes that are neither private nor callable.\<close>

definition collect_defaults :: "pyclass \<Rightarrow> (string \<times> pyval) list" where
  "collect_defaults cls =
     filter (\<lambda>(name, attr). \<not> startswith_underscore name \<and> \<not> callable attr) (cls_attrs cls)"

definition no_fields_message :: "pyclass \<Rightarrow> string" where
  "no_fields_message cls =
     ''No valid configurable fields found in '' @ cls_name cls @ ''. '' @
     ''Ensure fields have type annotations and default values, and are not private.''"

text \<open>
  \<open>new_init\<close>: the original initialiser (a parameter: any code of the wrapped class), then
  discovery, then one session opened and closed.
\<close>

definition new_init ::
  "inject \<Rightarrow> codec \<Rightarrow> io \<Rightarrow> pyclass \<Rightarrow> (state \<Rightarrow> exn option \<times> state) \<Rightarrow> state \<Rightarrow> exn option \<times> state" where
  "new_init deco cd io cls original_init st =
     (case original_init st of
        (Some e, st1) \<Rightarrow> (Some e, st1)
      | (None, st1) \<Rightarrow>
          (case get_configurable_fields cls (inj_fields deco) (Some (collect_defaults cls)) of
             (field_types, valid_fields) \<Rightarrow>
               if field_types = []
               then (Some (ValueError (no_fields_message cls)), st1)
               else with_session cd io
                      \<lparr>s_readonly = inj_readonly deco, s_path = inj_conf_path deco,
                       s_field_types = field_types, s_class_key = cls_qualname cls,
                       s_fields_to_inject = valid_fields\<rparr> st1))"

text \<open>Constructing an instance of the decorated class: a fresh object, then \<open>new_init\<close>.\<close>

definition construct ::
  "inject \<Rightarrow> codec \<Rightarrow> io \<Rightarrow> pyclass \<Rightarrow> (state \<Rightarrow> exn option \<times> state) \<Rightarrow>
   filesystem \<Rightarrow> string list \<Rightarrow> exn option \<times> state" where
  "construct deco cd io cls original_init fs out =
     new_init deco cd io (Inject_call deco cls) original_init
       \<lparr>st_obj = \<lparr>obj_class = Inject_call deco cls, obj_dict = []\<rparr>, st_fs = fs, st_out = out\<rparr>"

section \<open>Example classes, codec and documents\<close>

text \<open>
  The class of the specification's scenario: \<open>size: int = 10\<close>, \<open>_private: int = 1\<close> and a
  method \<open>run\<close>.
\<close>

definition Widget :: pyclass where
  "Widget =
     \<lparr>cls_name = ''Widget'', cls_qualname = ''Widget'',
      cls_hints = [(''size'', TInt), (''_private'', TInt)],
      cls_attrs = [(''__init__'', VCallable ''Widget.__init__''), (''_private'', VInt 1),
                   (''run'', VCallable ''Widget.run''), (''size'', VInt 10)],
      cls_setattr = None\<rparr>"

text \<open>A class with three fields, for the scenario of one failing field among three.\<close>

definition Gadget :: pyclass where
  "Gadget =
     \<lparr>cls_name = ''Gadget'', cls_qualname = ''Gadget'',
      cls_hints = [(''a'', TInt), (''b'', TInt), (''c'', TStr)],
      cls_attrs = [(''a'', VInt 1), (''b'', VInt 2), (''c'', VStr ''x'')],
      cls_setattr = None\<rparr>"

text \<open>
  A codec for the examples: an \<open>int\<close> field accepts integers only, a \<open>str\<close> field strings
  only, every other type accepts what it is given.
\<close>

definition example_convert :: "pyval \<Rightarrow> pytype \<Rightarrow> exn + pyval" where
  "example_convert v ty =
     (case ty of
        TInt \<Rightarrow> (case v of VInt n \<Rightarrow> Inr (VInt n) | _ \<Rightarrow> Inl (ValueError ''not an int''))
      | TStr \<Rightarrow> (case v of VStr t \<Rightarrow> Inr (VStr t) | _ \<Rightarrow> Inl (ValueError ''not a str''))
      | _ \<Rightarrow> Inr v)"

definition example_codec :: codec where
  "example_codec = \<lparr>deserialize_value = example_convert, serialize_value = example_convert\<rparr>"

definition conf_path :: string where
  "conf_path = ''config.json''"

definition io_ok :: io where
  "io_ok = \<lparr>io_tmp_path = ''tmpk3x9.tmp'', io_mkstemp_fails = False, io_write_fails = False,
            io_replace_fails = False\<rparr>"

definition no_init :: "state \<Rightarrow> exn option \<times> state" where
  "no_init st = (None, st)"

definition widget_session :: session where
  "widget_session =
     \<lparr>s_readonly = False, s_path = conf_path, s_field_types = [(''size'', TInt)],
      s_class_key = ''Widget'', s_fields_to_inject = [''size'']\<rparr>"

definition readonly_widget_session :: session where
  "readonly_widget_session = widget_session\<lparr>s_readonly := True\<rparr>"

definition widget_obj :: pyobject where
  "widget_obj = \<lparr>obj_class = Widget, obj_dict = []\<rparr>"

text \<open>A document with the block of another class beside the one of \<open>Widget\<close>.\<close>

definition two_class_doc :: pyval where
  "two_class_doc =
     VDict [(''Other'', VDict [(''n'', VInt 7)]), (''Widget'', VDict [(''size'', VInt 42)])]"

text \<open>A fresh \<open>Widget\<close>, the configuration file in the given condition, nothing printed.\<close>

definition widget_state :: "docfile option \<Rightarrow> state" where
  "widget_state f =
     \<lparr>st_obj = widget_obj, st_fs = (\<lambda>p. if p = conf_path then f else None), st_out = []\<rparr>"

definition io_disk_full :: io where
  "io_disk_full = io_ok\<lparr>io_write_fails := True\<rparr>"

text \<open>
  Every field the instance has is a key of \<open>field_types\<close>, so that \<open>self._field_types[key]\<close>
  raises no \<open>KeyError\<close>. Discovery returns \<open>valid_fields\<close> as the keys of \<open>field_types\<close>.
\<close>

definition types_known :: "session \<Rightarrow> pyobject \<Rightarrow> string list \<Rightarrow> bool" where
  "types_known s obj ks = list_all (\<lambda>k. getattr_obj obj k = None \<or> map_of (s_field_types s) k \<noteq> None) ks"

text \<open>The decorator without a whitelist, on the example path: read-only, and not.\<close>

definition readonly_inject :: inject where
  "readonly_inject = Inject_init conf_path None None True"

definition plain_inject :: inject where
  "plain_inject = Inject_init conf_path None None False"

text \<open>
  A class without a configurable field: a private attribute, an annotation without a
  default, and a method.
\<close>

definition Bare :: pyclass where
  "Bare =
     \<lparr>cls_name = ''Bare'', cls_qualname = ''Bare'',
      cls_hints = [(''_hidden'', TInt), (''declared'', TInt), (''go'', TNamed ''Callable'')],
      cls_attrs = [(''_hidden'', VInt 1), (''go'', VCallable ''Bare.go'')],
      cls_setattr = None\<rparr>"

text \<open>A new instance of a class, the configuration file in the given condition.\<close>

definition fresh_state :: "pyclass \<Rightarrow> docfile option \<Rightarrow> state" where
  "fresh_state cls f =
     \<lparr>st_obj = \<lparr>obj_class = cls, obj_dict = []\<rparr>,
      st_fs = (\<lambda>p. if p = conf_path then f else None), st_out = []\<rparr>"


text \<open>
  The scenario of one failing field among three: the document holds a string for the
  \<open>int\<close> field \<open>b\<close>, and the instance itself holds a string there.
\<close>

definition gadget_session :: session where
  "gadget_session =
     \<lparr>s_readonly = False, s_path = conf_path,
      s_field_types = [(''a'', TInt), (''b'', TInt), (''c'', TStr)],
      s_class_key = ''Gadget'', s_fields_to_inject = [''a'', ''b'', ''c'']\<rparr>"

definition gadget_doc :: pyval where
  "gadget_doc =
     VDict [(''Gadget'', VDict [(''a'', VInt 5), (''b'', VStr ''oops''), (''c'', VStr ''y'')])]"

definition gadget_state :: state where
  "gadget_state =
     \<lparr>st_obj = \<lparr>obj_class = Gadget, obj_dict = [(''b'', VStr ''bad'')]\<rparr>,
      st_fs = (\<lambda>p. if p = conf_path then Some (JSONText gadget_doc) else None),
      st_out = []\<rparr>"

section \<open>Field discovery: properties\<close>

lemma fields_loop_valid:
  "set (snd (fields_loop cls ann defs cands (ft, vf))) =
     set vf \<union> {n \<in> set cands. map_of ann n \<noteq> None \<and> n \<in> set (map fst defs) \<and>
        \<not> startswith_underscore n \<and> \<not> callable (getattr_cls cls n VNone)}"
  by (induction cands arbitrary: ft vf) (auto split: option.splits)

lemma fields_loop_types:
  "map_of (fst (fields_loop cls ann defs cands (ft, vf))) n =
     (if n \<in> set cands \<and> map_of ann n \<noteq> None \<and> n \<in> set (map fst defs) \<and>
        \<not> startswith_underscore n \<and> \<not> callable (getattr_cls cls n VNone)
      then map_of ann n else map_of ft n)"
  by (induction cands arbitrary: ft vf) (auto split: option.splits simp: update_conv')

lemma fields_loop_distinct:
  "distinct vf \<Longrightarrow> distinct (snd (fields_loop cls ann defs cands (ft, vf)))"
  by (induction cands arbitrary: ft vf) (auto split: option.splits)

lemma fields_loop_keys:
  "set (map fst ft) = set vf \<Longrightarrow>
   set (map fst (fst (fields_loop cls ann defs cands (ft, vf)))) =
   set (snd (fields_loop cls ann defs cands (ft, vf)))"
  by (induction cands arbitrary: ft vf) (auto split: option.splits simp: dom_update)

lemma map_of_None_iff_keys: "map_of kvs k \<noteq> None \<longleftrightarrow> k \<in> set (map fst kvs)"
  by (simp add: map_of_eq_None_iff)

text \<open>
  C1. For every class, every optional whitelist and every optional mapping of defaults, a
  name is in \<open>valid_fields\<close> exactly when it is a candidate (a name of the whitelist when
  one is given, an annotated name otherwise), is annotated, is a key of
  \<open>instance_defaults\<close>, does not start with an underscore, and the class attribute of that
  name is not callable. \<open>field_types\<close> holds the annotation of each such name and no other
  key. With the empty whitelist nothing is returned.
\<close>

theorem discovery_exactly_the_safe_candidates:
  "(name \<in> set (snd (get_configurable_fields cls explicit_fields instance_defaults)) \<longleftrightarrow>
      (case explicit_fields of
         Some whitelist \<Rightarrow> name \<in> set whitelist
       | None \<Rightarrow> name \<in> set (map fst (cls_hints cls))) \<and>
      name \<in> set (map fst (cls_hints cls)) \<and>
      name \<in> set (map fst (case instance_defaults of None \<Rightarrow> [] | Some d \<Rightarrow> d)) \<and>
      \<not> startswith_underscore name \<and>
      \<not> callable (getattr_cls cls name VNone)) \<and>
   map_of (fst (get_configurable_fields cls explicit_fields instance_defaults)) name =
     (if name \<in> set (snd (get_configurable_fields cls explicit_fields instance_defaults))
      then map_of (cls_hints cls) name else None) \<and>
   get_configurable_fields cls (Some []) instance_defaults = ([], [])"
proof -
  let ?defs = "case instance_defaults of None \<Rightarrow> [] | Some d \<Rightarrow> d"
  let ?cands = "case explicit_fields of Some wl \<Rightarrow> wl | None \<Rightarrow> map fst (cls_hints cls)"
  have unfold: "get_configurable_fields cls explicit_fields instance_defaults =
      fields_loop cls (cls_hints cls) ?defs ?cands ([], [])"
    by (simp add: get_configurable_fields_def Let_def)
  have cands: "name \<in> set ?cands \<longleftrightarrow>
      (case explicit_fields of
         Some whitelist \<Rightarrow> name \<in> set whitelist
       | None \<Rightarrow> name \<in> set (map fst (cls_hints cls)))"
    by (cases explicit_fields) simp_all
  have valid: "name \<in> set (snd (get_configurable_fields cls explicit_fields instance_defaults)) \<longleftrightarrow>
      name \<in> set ?cands \<and> name \<in> set (map fst (cls_hints cls)) \<and> name \<in> set (map fst ?defs) \<and>
      \<not> startswith_underscore name \<and> \<not> callable (getattr_cls cls name VNone)"
    unfolding unfold fields_loop_valid using map_of_None_iff_keys [of "cls_hints cls" name]
    by auto
  have types: "map_of (fst (get_configurable_fields cls explicit_fields instance_defaults)) name =
     (if name \<in> set (snd (get_configurable_fields cls explicit_fields instance_defaults))
      then map_of (cls_hints cls) name else None)"
    unfolding unfold fields_loop_types fields_loop_valid by simp
  have empty: "get_configurable_fields cls (Some []) instance_defaults = ([], [])"
    by (simp add: get_configurable_fields_def Let_def)
  from valid cands types empty show ?thesis by simp
qed

section \<open>The save phase: properties\<close>

lemmas ex_defs = widget_session_def widget_obj_def two_class_doc_def widget_state_def
  io_disk_full_def io_ok_def conf_path_def example_codec_def example_convert_def Widget_def
  int_str_ok_def digit_str_def

lemmas exit_defs = session_exit_def build_document_def exit_read_def getattr_obj_def
  py_setitem_def persist_def json_dump_def os_replace_def os_unlink_def save_skip_def Let_def

text \<open>
  What \<open>persist\<close> leaves: the target holding the whole document when nothing was raised,
  the files as they were when something was. The temporary file is gone either way.
\<close>

lemma persist_outcome:
  "persist io path doc fs =
     (fst (persist io path doc fs),
      case fst (persist io path doc fs) of None \<Rightarrow> fs(path \<mapsto> JSONText doc) | Some e \<Rightarrow> fs)"
  by (auto simp: persist_def Let_def json_dump_def os_unlink_def os_replace_def fun_eq_iff
      split: sum.splits option.splits if_splits)

lemma persist_fails_when_io_fails:
  "io_write_fails io \<or> io_replace_fails io \<Longrightarrow> fst (persist io path doc fs) \<noteq> None"
  by (auto simp: persist_def Let_def json_dump_def split: sum.splits option.splits if_splits)

lemma session_exit_obj: "st_obj (snd (session_exit cd io s st)) = st_obj st"
  by (auto simp: session_exit_def split: prod.splits sum.splits)

lemma exit_read_cases:
  "exit_read s fs = Inr d \<Longrightarrow>
     (case fs (s_path s) of
        Some (JSONText v) \<Rightarrow> d = v
      | Some BadEncoding \<Rightarrow> False
      | _ \<Rightarrow> d = VDict [])"
  by (auto simp: exit_read_def split: option.splits docfile.splits if_splits)

lemma py_setitem_dict:
  "py_setitem d k v = Inr d' \<Longrightarrow> \<exists>kvs. d = VDict kvs \<and> d' = VDict (AList.update k v kvs)"
  by (auto simp: py_setitem_def split: pyval.splits)

lemma build_document_Inr:
  "build_document cd s st = (Inr doc, out) \<Longrightarrow>
     \<exists>old block. exit_read s (st_fs st) = Inr (VDict old) \<and>
       exit_loop cd s (st_obj st) (s_fields_to_inject s) ([], st_out st) = (None, block, out) \<and>
       doc = VDict (AList.update (s_class_key s) (VDict block) old)"
  by (auto simp: build_document_def split: sum.splits prod.splits option.splits
      dest!: py_setitem_dict)

lemma session_exit_None:
  assumes "\<not> s_readonly s" and "session_exit cd io s st = (None, st')"
  shows "\<exists>doc. build_document cd s st = (Inr doc, st_out st') \<and>
           st_fs st' = (st_fs st)(s_path s \<mapsto> JSONText doc)"
proof (cases "build_document cd s st")
  case (Pair res out)
  show ?thesis
  proof (cases res)
    case (Inl e)
    with Pair assms show ?thesis by (auto simp: session_exit_def)
  next
    case (Inr doc)
    let ?p = "persist io (s_path s) doc (st_fs st)"
    from Pair Inr assms have r: "fst ?p = None"
      and st': "st' = st\<lparr>st_fs := snd ?p, st_out := out\<rparr>"
      by (auto simp: session_exit_def split: prod.splits)
    have "snd ?p =
        (case fst ?p of None \<Rightarrow> (st_fs st)(s_path s \<mapsto> JSONText doc) | Some e \<Rightarrow> st_fs st)"
      using persist_outcome [of io "s_path s" doc "st_fs st"] by (metis snd_conv)
    with r st' Pair Inr show ?thesis by simp
  qed
qed

text \<open>
  C2. A save of a session that is not read-only either returns, and then the file at the
  path holds the whole updated document (the one \<open>build_document\<close> computed) and no other
  file changed, or raises, and then every file is as it was before: the temporary file
  is removed and the target untouched. A failing write or a failing rename always raises.
\<close>

theorem save_is_all_or_nothing:
  assumes "\<not> s_readonly s" and "session_exit cd io s st = (r, st')"
  shows "((\<exists>doc. r = None \<and> fst (build_document cd s st) = Inr doc \<and>
             st_fs st' = (st_fs st)(s_path s \<mapsto> JSONText doc)) \<or>
          (\<exists>e. r = Some e \<and> st_fs st' = st_fs st)) \<and>
         (io_write_fails io \<or> io_replace_fails io \<longrightarrow> r \<noteq> None)"
proof (cases "build_document cd s st")
  case (Pair res out)
  show ?thesis
  proof (cases res)
    case (Inl e)
    with Pair assms show ?thesis by (auto simp: session_exit_def)
  next
    case (Inr doc)
    let ?p = "persist io (s_path s) doc (st_fs st)"
    from Pair Inr assms have r: "r = fst ?p"
      and st': "st' = st\<lparr>st_fs := snd ?p, st_out := out\<rparr>"
      by (auto simp: session_exit_def split: prod.splits)
    have snd: "snd ?p =
        (case fst ?p of None \<Rightarrow> (st_fs st)(s_path s \<mapsto> JSONText doc) | Some e \<Rightarrow> st_fs st)"
      using persist_outcome [of io "s_path s" doc "st_fs st"] by (metis snd_conv)
    show ?thesis
    proof (cases "fst ?p")
      case None
      with r st' snd Pair Inr persist_fails_when_io_fails [of io "s_path s" doc "st_fs st"]
      show ?thesis by auto
    next
      case (Some e)
      with r st' snd show ?thesis by auto
    qed
  qed
qed

text \<open>
  The theorem at a document of two classes: with working file operations the file holds
  the new document; with a disk that is full the save raises and the files are unchanged.
\<close>

theorem save_is_all_or_nothing_witness:
  "\<not> s_readonly widget_session \<and>
   fst (session_exit example_codec io_ok widget_session
          (widget_state (Some (JSONText two_class_doc)))) = None \<and>
   st_fs (snd (session_exit example_codec io_ok widget_session
                 (widget_state (Some (JSONText two_class_doc))))) conf_path =
     Some (JSONText (VDict [(''Other'', VDict [(''n'', VInt 7)]),
                            (''Widget'', VDict [(''size'', VInt 10)])])) \<and>
   fst (session_exit example_codec io_disk_full widget_session
          (widget_state (Some (JSONText two_class_doc)))) =
     Some (OSError ''No space left on device'') \<and>
   st_fs (snd (session_exit example_codec io_disk_full widget_session
                 (widget_state (Some (JSONText two_class_doc))))) =
     st_fs (widget_state (Some (JSONText two_class_doc)))"
proof -
  let ?st = "widget_state (Some (JSONText two_class_doc))"
  have ro: "\<not> s_readonly widget_session" by (simp add: widget_session_def)
  have ok: "fst (session_exit example_codec io_ok widget_session ?st) = None"
    by (simp add: ex_defs exit_defs)
  have doc: "fst (build_document example_codec widget_session ?st) =
      Inr (VDict [(''Other'', VDict [(''n'', VInt 7)]), (''Widget'', VDict [(''size'', VInt 10)])])"
    by (simp add: ex_defs exit_defs)
  have bad: "fst (session_exit example_codec io_disk_full widget_session ?st) =
      Some (OSError ''No space left on device'')"
    by (simp add: ex_defs exit_defs)
  have p: "s_path widget_session = conf_path" by (simp add: widget_session_def)
  from save_is_all_or_nothing [OF ro surjective_pairing, of example_codec io_ok ?st] ok doc p
  have written: "st_fs (snd (session_exit example_codec io_ok widget_session ?st)) conf_path =
     Some (JSONText (VDict [(''Other'', VDict [(''n'', VInt 7)]),
                            (''Widget'', VDict [(''size'', VInt 10)])]))"
    by auto
  from save_is_all_or_nothing [OF ro surjective_pairing, of example_codec io_disk_full ?st] bad
  have kept: "st_fs (snd (session_exit example_codec io_disk_full widget_session ?st)) = st_fs ?st"
    by auto
  from ro ok written bad kept show ?thesis by blast
qed

text \<open>
  C3. When a save writes, the document read again at exit was a dictionary \<open>old\<close> (the
  parsed content of the file, or the empty dictionary when the file is absent or could not
  be read or parsed), and the document written is \<open>old\<close> with the entry of the session's
  class key set to the newly built block: that key maps to the new block, every other key
  maps to what was read for it.
\<close>

theorem save_rewrites_only_own_block:
  assumes "\<not> s_readonly s" and "session_exit cd io s st = (None, st')"
  shows "\<exists>old block.
           exit_read s (st_fs st) = Inr (VDict old) \<and>
           (case st_fs st (s_path s) of Some (JSONText v) \<Rightarrow> v = VDict old | _ \<Rightarrow> old = []) \<and>
           exit_loop cd s (st_obj st) (s_fields_to_inject s) ([], st_out st) =
             (None, block, st_out st') \<and>
           st_fs st' (s_path s) =
             Some (JSONText (VDict (AList.update (s_class_key s) (VDict block) old))) \<and>
           map_of (AList.update (s_class_key s) (VDict block) old) (s_class_key s) =
             Some (VDict block) \<and>
           (\<forall>k. k \<noteq> s_class_key s \<longrightarrow>
                map_of (AList.update (s_class_key s) (VDict block) old) k = map_of old k)"
proof -
  from session_exit_None [OF assms] obtain doc
    where doc: "build_document cd s st = (Inr doc, st_out st')"
      and fs': "st_fs st' = (st_fs st)(s_path s \<mapsto> JSONText doc)"
    by blast
  from build_document_Inr [OF doc] obtain old block
    where rd: "exit_read s (st_fs st) = Inr (VDict old)"
      and lp: "exit_loop cd s (st_obj st) (s_fields_to_inject s) ([], st_out st) =
                 (None, block, st_out st')"
      and d: "doc = VDict (AList.update (s_class_key s) (VDict block) old)"
    by blast
  have disk: "case st_fs st (s_path s) of Some (JSONText v) \<Rightarrow> v = VDict old | _ \<Rightarrow> old = []"
    using exit_read_cases [OF rd] by (auto split: option.splits docfile.splits)
  have own: "map_of (AList.update (s_class_key s) (VDict block) old) (s_class_key s) =
      Some (VDict block)"
    by (simp add: update_conv')
  have others: "\<forall>k. k \<noteq> s_class_key s \<longrightarrow>
      map_of (AList.update (s_class_key s) (VDict block) old) k = map_of old k"
    by (simp add: update_conv')
  from rd disk lp fs' d own others show ?thesis by auto
qed

text \<open>
  The theorem at the document of two classes: the save returns, the block of \<open>Other\<close> is
  the one read, the block of \<open>Widget\<close> is the new one.
\<close>

theorem save_rewrites_only_own_block_witness:
  "\<not> s_readonly widget_session \<and>
   session_exit example_codec io_ok widget_session (widget_state (Some (JSONText two_class_doc))) =
     (None, snd (session_exit example_codec io_ok widget_session
                   (widget_state (Some (JSONText two_class_doc))))) \<and>
   (\<exists>old block.
      st_fs (widget_state (Some (JSONText two_class_doc))) conf_path =
        Some (JSONText (VDict old)) \<and>
      st_fs (snd (session_exit example_codec io_ok widget_session
                    (widget_state (Some (JSONText two_class_doc))))) conf_path =
        Some (JSONText (VDict (AList.update ''Widget'' (VDict block) old))) \<and>
      map_of (AList.update ''Widget'' (VDict block) old) ''Other'' =
        Some (VDict [(''n'', VInt 7)]) \<and>
      map_of (AList.update ''Widget'' (VDict block) old) ''Widget'' =
        Some (VDict [(''size'', VInt 10)]))"
proof -
  let ?st = "widget_state (Some (JSONText two_class_doc))"
  let ?r = "session_exit example_codec io_ok widget_session ?st"
  have ro: "\<not> s_readonly widget_session" by (simp add: widget_session_def)
  have "fst ?r = None" by (simp add: ex_defs exit_defs)
  then have ok: "?r = (None, snd ?r)" by (metis surjective_pairing)
  have p: "s_path widget_session = conf_path" "s_class_key widget_session = ''Widget''"
    by (simp_all add: widget_session_def)
  have disk: "st_fs ?st conf_path = Some (JSONText two_class_doc)"
    by (simp add: widget_state_def)
  have lp: "exit_loop example_codec widget_session (st_obj ?st)
              (s_fields_to_inject widget_session) ([], st_out ?st) =
      (None, [(''size'', VInt 10)], [])"
    by (simp add: ex_defs getattr_obj_def)
  from save_rewrites_only_own_block [OF ro ok] obtain old block where
    a: "case st_fs ?st (s_path widget_session) of
          Some (JSONText v) \<Rightarrow> v = VDict old | _ \<Rightarrow> old = []"
    and b: "exit_loop example_codec widget_session (st_obj ?st)
              (s_fields_to_inject widget_session) ([], st_out ?st) =
              (None, block, st_out (snd ?r))"
    and c: "st_fs (snd ?r) (s_path widget_session) =
              Some (JSONText (VDict (AList.update (s_class_key widget_session) (VDict block) old)))"
    and d: "\<forall>k. k \<noteq> s_class_key widget_session \<longrightarrow>
              map_of (AList.update (s_class_key widget_session) (VDict block) old) k = map_of old k"
    and e: "map_of (AList.update (s_class_key widget_session) (VDict block) old)
              (s_class_key widget_session) = Some (VDict block)"
    by blast
  from a disk p have old: "two_class_doc = VDict old" by simp
  then have old': "old = [(''Other'', VDict [(''n'', VInt 7)]),
                          (''Widget'', VDict [(''size'', VInt 42)])]"
    by (simp add: two_class_doc_def)
  from b lp have blk: "block = [(''size'', VInt 10)]" by simp
  from d p old' have oth: "map_of (AList.update ''Widget'' (VDict block) old) ''Other'' =
      Some (VDict [(''n'', VInt 7)])"
    by simp
  from e p blk have own: "map_of (AList.update ''Widget'' (VDict block) old) ''Widget'' =
      Some (VDict [(''size'', VInt 10)])"
    by simp
  from disk old have "st_fs ?st conf_path = Some (JSONText (VDict old))" by simp
  with c p oth own ro ok show ?thesis by auto
qed

text \<open>
  C8. The save of a read-only session leaves every file as it was, whatever the instance
  holds and whether the save returns or raises.
\<close>

theorem readonly_session_never_writes:
  assumes "s_readonly s"
  shows "st_fs (snd (session_exit cd io s st)) = st_fs st"
  using assms by (auto simp: session_exit_def split: prod.splits sum.splits)

theorem readonly_session_never_writes_witness:
  "s_readonly readonly_widget_session \<and>
   fst (session_exit example_codec io_ok readonly_widget_session
          (widget_state (Some (JSONText two_class_doc)))) = None \<and>
   st_fs (snd (session_exit example_codec io_ok readonly_widget_session
                 (widget_state (Some (JSONText two_class_doc))))) =
     st_fs (widget_state (Some (JSONText two_class_doc)))"
proof -
  have ro: "s_readonly readonly_widget_session"
    by (simp add: readonly_widget_session_def)
  have "fst (session_exit example_codec io_ok readonly_widget_session
          (widget_state (Some (JSONText two_class_doc)))) = None"
    by (simp add: readonly_widget_session_def ex_defs exit_defs)
  with ro readonly_session_never_writes [OF ro] show ?thesis by simp
qed

section \<open>The load phase and the block built on exit: lemmas\<close>

lemma getattr_setattr_other:
  "setattr_obj obj key v = Inr obj' \<Longrightarrow> k \<noteq> key \<Longrightarrow> getattr_obj obj' k = getattr_obj obj k"
  by (auto simp: setattr_obj_def getattr_obj_def update_conv' split: option.splits sum.splits)

lemma setattr_class:
  "setattr_obj obj key v = Inr obj' \<Longrightarrow> obj_class obj' = obj_class obj"
  by (auto simp: setattr_obj_def split: option.splits sum.splits)

lemma setattr_plain:
  "cls_setattr (obj_class obj) = None \<Longrightarrow>
   \<exists>obj'. setattr_obj obj key v = Inr obj' \<and> getattr_obj obj' key = Some v"
  by (auto simp: setattr_obj_def getattr_obj_def update_conv')

lemma setattr_protected:
  "cls_setattr (obj_class obj) = Some protect \<Longrightarrow>
   setattr_obj obj key v =
     Inl (TypeError ''Inject.__protect_class.<locals>.protect() takes 2 positional arguments but 3 were given'')"
  by (simp add: setattr_obj_def call_function_def protect_def digit_str_def)

lemma enter_loop_fs: "st_fs (snd (enter_loop cd s cc ks st)) = st_fs st"
  by (induction ks arbitrary: st) (auto split: option.splits sum.splits)

lemma enter_loop_class: "obj_class (st_obj (snd (enter_loop cd s cc ks st))) = obj_class (st_obj st)"
  by (induction ks arbitrary: st) (auto split: option.splits sum.splits dest: setattr_class)

lemma enter_loop_other:
  "key \<notin> set ks \<Longrightarrow> getattr_obj (st_obj (snd (enter_loop cd s cc ks st))) key = getattr_obj (st_obj st) key"
  by (induction ks arbitrary: st) (auto split: option.splits sum.splits dest: getattr_setattr_other)

lemma enter_loop_out_grows:
  "\<exists>w. st_out (snd (enter_loop cd s cc ks st)) = st_out st @ w"
proof (induction ks arbitrary: st)
  case Nil
  then show ?case by simp
next
  case (Cons key rest)
  show ?case
    using Cons [of st] Cons [of "st\<lparr>st_out := st_out st @ [w]\<rparr>" for w] Cons [of "st\<lparr>st_obj := obj'\<rparr>" for obj']
    by (auto split: option.splits sum.splits)
qed


lemma enter_step:
  assumes "getattr_obj (st_obj st) k = None \<or> map_of (s_field_types s) k \<noteq> None"
  shows "\<exists>st1. enter_loop cd s (VDict block) (k # rest) st = enter_loop cd s (VDict block) rest st1 \<and>
      obj_class (st_obj st1) = obj_class (st_obj st) \<and>
      (\<forall>k'. k' \<noteq> k \<longrightarrow> getattr_obj (st_obj st1) k' = getattr_obj (st_obj st) k') \<and>
      (getattr_obj (st_obj st) k = None \<longrightarrow> getattr_obj (st_obj st1) k = None)"
proof (cases "getattr_obj (st_obj st) k")
  case None
  then show ?thesis by (intro exI [of _ st]) simp
next
  case (Some cur)
  with assms obtain ty where ty: "map_of (s_field_types s) k = Some ty" by auto
  let ?raw = "case map_of block k of Some p \<Rightarrow> p | None \<Rightarrow> cur"
  show ?thesis
  proof (cases "case deserialize_value cd ?raw ty of Inl e \<Rightarrow> Inl e
                | Inr injected_val \<Rightarrow> setattr_obj (st_obj st) k injected_val")
    case (Inl e)
    with Some ty show ?thesis
      by (intro exI [of _ "st\<lparr>st_out := st_out st @ [load_warning s k e]\<rparr>"])
         (simp add: py_get_def)
  next
    case (Inr obj')
    then obtain v where "setattr_obj (st_obj st) k v = Inr obj'"
      by (auto split: sum.splits)
    then have "obj_class obj' = obj_class (st_obj st)"
      and "\<forall>k'. k' \<noteq> k \<longrightarrow> getattr_obj obj' k' = getattr_obj (st_obj st) k'"
      by (auto dest: setattr_class getattr_setattr_other)
    with Some ty Inr show ?thesis
      by (intro exI [of _ "st\<lparr>st_obj := obj'\<rparr>"]) (simp add: py_get_def)
  qed
qed

lemma types_known_step:
  assumes "types_known s obj (k # rest)"
    and "\<forall>k'. k' \<noteq> k \<longrightarrow> getattr_obj obj1 k' = getattr_obj obj k'"
    and "getattr_obj obj k = None \<longrightarrow> getattr_obj obj1 k = None"
  shows "types_known s obj1 rest"
proof -
  have "getattr_obj obj1 k' = None \<or> map_of (s_field_types s) k' \<noteq> None" if "k' \<in> set rest" for k'
  proof (cases "k' = k")
    case True
    with assms(1,3) show ?thesis by (auto simp: types_known_def)
  next
    case False
    with assms(2) have "getattr_obj obj1 k' = getattr_obj obj k'" by simp
    with assms(1) that show ?thesis by (auto simp: types_known_def list_all_iff)
  qed
  then show ?thesis by (simp add: types_known_def list_all_iff)
qed

lemma enter_loop_returns:
  "types_known s (st_obj st) ks \<Longrightarrow> fst (enter_loop cd s (VDict block) ks st) = None"
proof (induction ks arbitrary: st)
  case Nil
  then show ?case by simp
next
  case (Cons k rest)
  from Cons.prems have "getattr_obj (st_obj st) k = None \<or> map_of (s_field_types s) k \<noteq> None"
    by (simp add: types_known_def)
  from enter_step [OF this, of cd block rest] obtain st1 where
    eq: "enter_loop cd s (VDict block) (k # rest) st = enter_loop cd s (VDict block) rest st1"
    and oth: "\<forall>k'. k' \<noteq> k \<longrightarrow> getattr_obj (st_obj st1) k' = getattr_obj (st_obj st) k'"
    and same: "getattr_obj (st_obj st) k = None \<longrightarrow> getattr_obj (st_obj st1) k = None"
    by (elim exE conjE) (rule that, assumption+)
  from types_known_step [OF Cons.prems oth same] Cons.IH eq show ?case by simp
qed

lemma enter_loop_decoded:
  assumes "distinct ks" and "key \<in> set ks" and "types_known s (st_obj st) ks"
    and "cls_setattr (obj_class (st_obj st)) = None"
    and "getattr_obj (st_obj st) key = Some cur"
    and "map_of (s_field_types s) key = Some ty"
    and "deserialize_value cd (case map_of block key of Some p \<Rightarrow> p | None \<Rightarrow> cur) ty = Inr v"
  shows "getattr_obj (st_obj (snd (enter_loop cd s (VDict block) ks st))) key = Some v"
  using assms
proof (induction ks arbitrary: st)
  case Nil
  then show ?case by simp
next
  case (Cons k rest)
  show ?case
  proof (cases "k = key")
    case True
    from setattr_plain [OF Cons.prems(4), of key v] obtain obj' where
      set: "setattr_obj (st_obj st) key v = Inr obj'" and got: "getattr_obj obj' key = Some v"
      by (elim exE conjE) (rule that, assumption+)
    from True Cons.prems set have
      "enter_loop cd s (VDict block) (k # rest) st =
       enter_loop cd s (VDict block) rest (st\<lparr>st_obj := obj'\<rparr>)"
      by (simp add: py_get_def)
    moreover from True Cons.prems(1) have "key \<notin> set rest" by simp
    ultimately show ?thesis using got enter_loop_other [of key rest cd s "VDict block" "st\<lparr>st_obj := obj'\<rparr>"]
      by simp
  next
    case False
    from Cons.prems(3) have "getattr_obj (st_obj st) k = None \<or> map_of (s_field_types s) k \<noteq> None"
      by (simp add: types_known_def)
    from enter_step [OF this, of cd block rest] obtain st1 where
      eq: "enter_loop cd s (VDict block) (k # rest) st = enter_loop cd s (VDict block) rest st1"
      and cl: "obj_class (st_obj st1) = obj_class (st_obj st)"
      and oth: "\<forall>k'. k' \<noteq> k \<longrightarrow> getattr_obj (st_obj st1) k' = getattr_obj (st_obj st) k'"
      and same: "getattr_obj (st_obj st) k = None \<longrightarrow> getattr_obj (st_obj st1) k = None"
      by (elim exE conjE) (rule that, assumption+)
    have tk: "types_known s (st_obj st1) rest"
      using types_known_step [OF Cons.prems(3) oth same] .
    from False oth Cons.prems(5) have cur: "getattr_obj (st_obj st1) key = Some cur" by simp
    from False Cons.prems have "key \<in> set rest" "distinct rest" by auto
    from Cons.IH [OF this(2) this(1) tk _ cur Cons.prems(6) Cons.prems(7)] cl Cons.prems(4) eq
    show ?thesis by simp
  qed
qed

lemma enter_loop_decode_failed:
  assumes "distinct ks" and "key \<in> set ks" and "types_known s (st_obj st) ks"
    and "getattr_obj (st_obj st) key = Some cur"
    and "map_of (s_field_types s) key = Some ty"
    and "deserialize_value cd (case map_of block key of Some p \<Rightarrow> p | None \<Rightarrow> cur) ty = Inl e"
  shows "getattr_obj (st_obj (snd (enter_loop cd s (VDict block) ks st))) key = Some cur \<and>
         load_warning s key e \<in> set (st_out (snd (enter_loop cd s (VDict block) ks st)))"
  using assms
proof (induction ks arbitrary: st)
  case Nil
  then show ?case by simp
next
  case (Cons k rest)
  show ?case
  proof (cases "k = key")
    case True
    let ?st1 = "st\<lparr>st_out := st_out st @ [load_warning s key e]\<rparr>"
    from True Cons.prems have eq:
      "enter_loop cd s (VDict block) (k # rest) st = enter_loop cd s (VDict block) rest ?st1"
      by (simp add: py_get_def)
    from True Cons.prems(1) have "key \<notin> set rest" by simp
    then have "getattr_obj (st_obj (snd (enter_loop cd s (VDict block) rest ?st1))) key = Some cur"
      using enter_loop_other [of key rest cd s "VDict block" ?st1] Cons.prems(4) by simp
    moreover from enter_loop_out_grows [of cd s "VDict block" rest ?st1]
    have "load_warning s key e \<in> set (st_out (snd (enter_loop cd s (VDict block) rest ?st1)))"
      by auto
    ultimately show ?thesis unfolding eq by simp
  next
    case False
    from Cons.prems(3) have "getattr_obj (st_obj st) k = None \<or> map_of (s_field_types s) k \<noteq> None"
      by (simp add: types_known_def)
    from enter_step [OF this, of cd block rest] obtain st1 where
      eq: "enter_loop cd s (VDict block) (k # rest) st = enter_loop cd s (VDict block) rest st1"
      and oth: "\<forall>k'. k' \<noteq> k \<longrightarrow> getattr_obj (st_obj st1) k' = getattr_obj (st_obj st) k'"
      and same: "getattr_obj (st_obj st) k = None \<longrightarrow> getattr_obj (st_obj st1) k = None"
      by (elim exE conjE) (rule that, assumption+)
    have tk: "types_known s (st_obj st1) rest"
      using types_known_step [OF Cons.prems(3) oth same] .
    from False oth Cons.prems(4) have cur: "getattr_obj (st_obj st1) key = Some cur" by simp
    from False Cons.prems have "key \<in> set rest" "distinct rest" by auto
    from Cons.IH [OF this(2) this(1) tk cur Cons.prems(5) Cons.prems(6)] eq
    show ?thesis by simp
  qed
qed

lemma enter_loop_protected:
  "cls_setattr (obj_class (st_obj st)) = Some protect \<Longrightarrow>
   st_obj (snd (enter_loop cd s cc ks st)) = st_obj st"
proof (induction ks arbitrary: st)
  case Nil
  then show ?case by simp
next
  case (Cons k rest)
  have no_set: "setattr_obj (st_obj st) k v \<noteq> Inr obj'" for v obj'
    using setattr_protected [OF Cons.prems] by simp
  have out: "st_obj (snd (enter_loop cd s cc rest (st\<lparr>st_out := w\<rparr>))) = st_obj st" for w
    using Cons.IH [of "st\<lparr>st_out := w\<rparr>"] Cons.prems by simp
  show ?case
    using Cons.IH [OF Cons.prems] out no_set
    by (simp split: option.splits sum.splits)
qed

lemma exit_loop_other:
  "key \<notin> set ks \<Longrightarrow>
   map_of (fst (snd (exit_loop cd s obj ks (blk, out)))) key = map_of blk key"
  by (induction ks arbitrary: blk out) (auto split: option.splits sum.splits simp: update_conv')

lemma exit_loop_out_grows:
  "\<exists>w. snd (snd (exit_loop cd s obj ks (blk, out))) = out @ w"
proof (induction ks arbitrary: blk out)
  case Nil
  then show ?case by simp
next
  case (Cons k rest)
  show ?case
    using Cons [of blk out] Cons [of blk "out @ [w]" for w] Cons [of blk' out for blk']
    by (auto split: option.splits sum.splits)
qed

lemma exit_step:
  assumes "map_of (s_field_types s) k \<noteq> None"
  shows "\<exists>blk1 out1. exit_loop cd s obj (k # rest) (blk, out) = exit_loop cd s obj rest (blk1, out1) \<and>
           (\<forall>k'. k' \<noteq> k \<longrightarrow> map_of blk1 k' = map_of blk k')"
proof -
  from assms obtain ty where ty: "map_of (s_field_types s) k = Some ty" by auto
  let ?r = "case getattr_obj obj k of
              None \<Rightarrow> Inl (AttributeError (quote (cls_name (obj_class obj)) @
                             '' object has no attribute '' @ quote k))
            | Some val \<Rightarrow> serialize_value cd val ty"
  show ?thesis
  proof (cases ?r)
    case (Inl e)
    with ty show ?thesis
      by (intro exI [of _ blk] exI [of _ "out @ [save_skip s k e]"]) simp
  next
    case (Inr enc)
    with ty show ?thesis
      by (intro exI [of _ "AList.update k enc blk"] exI [of _ out]) (simp add: update_conv')
  qed
qed

lemma exit_loop_returns:
  "list_all (\<lambda>k. map_of (s_field_types s) k \<noteq> None) ks \<Longrightarrow>
   fst (exit_loop cd s obj ks (blk, out)) = None"
  by (induction ks arbitrary: blk out) (auto split: option.splits sum.splits)

lemma exit_loop_encoded:
  assumes "distinct ks" and "key \<in> set ks"
    and "list_all (\<lambda>k. map_of (s_field_types s) k \<noteq> None) ks"
    and "getattr_obj obj key = Some val"
    and "map_of (s_field_types s) key = Some ty"
    and "serialize_value cd val ty = Inr enc"
  shows "map_of (fst (snd (exit_loop cd s obj ks (blk, out)))) key = Some enc"
  using assms(1-3)
proof (induction ks arbitrary: blk out)
  case Nil
  then show ?case by simp
next
  case (Cons k rest)
  show ?case
  proof (cases "k = key")
    case True
    with Cons.prems(1) have "key \<notin> set rest" by simp
    from exit_loop_other [OF this, of cd s obj "AList.update key enc blk" out] True assms(4-6)
    show ?thesis by (simp add: update_conv')
  next
    case False
    from Cons.prems(3) have "map_of (s_field_types s) k \<noteq> None" by simp
    from exit_step [OF this, of cd obj rest blk out] obtain blk1 out1 where
      eq: "exit_loop cd s obj (k # rest) (blk, out) = exit_loop cd s obj rest (blk1, out1)"
      by (elim exE conjE) (rule that, assumption+)
    from False Cons.prems have "distinct rest" "key \<in> set rest"
      "list_all (\<lambda>k. map_of (s_field_types s) k \<noteq> None) rest" by auto
    from Cons.IH [OF this, of blk1 out1] eq show ?thesis by simp
  qed
qed

lemma exit_loop_encode_failed:
  assumes "distinct ks" and "key \<in> set ks"
    and "list_all (\<lambda>k. map_of (s_field_types s) k \<noteq> None) ks"
    and "getattr_obj obj key = Some val"
    and "map_of (s_field_types s) key = Some ty"
    and "serialize_value cd val ty = Inl e"
  shows "map_of (fst (snd (exit_loop cd s obj ks (blk, out)))) key = map_of blk key \<and>
         save_skip s key e \<in> set (snd (snd (exit_loop cd s obj ks (blk, out))))"
  using assms(1-3)
proof (induction ks arbitrary: blk out)
  case Nil
  then show ?case by simp
next
  case (Cons k rest)
  show ?case
  proof (cases "k = key")
    case True
    with Cons.prems(1) have "key \<notin> set rest" by simp
    from exit_loop_other [OF this, of cd s obj blk "out @ [save_skip s key e]"]
    have kept: "map_of (fst (snd (exit_loop cd s obj rest (blk, out @ [save_skip s key e])))) key =
        map_of blk key" .
    from exit_loop_out_grows [of cd s obj rest blk "out @ [save_skip s key e]"]
    have "save_skip s key e \<in> set (snd (snd (exit_loop cd s obj rest (blk, out @ [save_skip s key e]))))"
      by auto
    with kept True assms(4-6) show ?thesis by simp
  next
    case False
    from Cons.prems(3) have "map_of (s_field_types s) k \<noteq> None" by simp
    from exit_step [OF this, of cd obj rest blk out] obtain blk1 out1 where
      eq: "exit_loop cd s obj (k # rest) (blk, out) = exit_loop cd s obj rest (blk1, out1)"
      and oth: "\<forall>k'. k' \<noteq> k \<longrightarrow> map_of blk1 k' = map_of blk k'"
      by (elim exE conjE) (rule that, assumption+)
    from False Cons.prems have "distinct rest" "key \<in> set rest"
      "list_all (\<lambda>k. map_of (s_field_types s) k \<noteq> None) rest" by auto
    from Cons.IH [OF this, of blk1 out1] eq oth False show ?thesis by simp
  qed
qed

section \<open>The load phase, the decorator: properties\<close>

lemmas enter_defs = session_enter_def enter_read_def py_get_def getattr_obj_def setattr_obj_def
  load_warning_def quote_def

lemmas deco_defs = construct_def new_init_def no_init_def Inject_call_def Inject_init_def
  get_configurable_fields_def collect_defaults_def getattr_cls_def with_session_def
  plain_inject_def readonly_inject_def protect_class_def protect_def call_function_def
  digit_str_def fresh_state_def no_fields_message_def

text \<open>
  C4, which the code does not meet. The claim: the load phase never raises because of the
  document file; a file that exists but cannot be read is treated as the empty document.
  In \<open>__enter__\<close> the call of \<open>open\<close> stands outside the \<open>try\<close>, so for a file that exists
  and cannot be opened the \<open>OSError\<close> leaves \<open>__enter__\<close> and the construction fails, while
  \<open>__exit__\<close>, where \<open>open\<close> is inside the \<open>try\<close>, reads the same file as the empty
  document. A document that is valid JSON but no object (\<open>AttributeError\<close> from \<open>get\<close>) and a
  file that is not UTF-8 (\<open>UnicodeDecodeError\<close>) leave \<open>__enter__\<close> as well.
\<close>

theorem load_raises_when_file_cannot_be_opened:
  "session_enter example_codec widget_session (widget_state (Some NoAccess)) =
     (Some (OSError ''Permission denied''), widget_state (Some NoAccess)) \<and>
   exit_read widget_session (st_fs (widget_state (Some NoAccess))) = Inr (VDict []) \<and>
   fst (construct plain_inject example_codec io_ok Widget no_init
          (\<lambda>p. if p = conf_path then Some NoAccess else None) []) =
     Some (OSError ''Permission denied'') \<and>
   fst (session_enter example_codec widget_session (widget_state (Some (JSONText (VList []))))) =
     Some (AttributeError (quote ''list'' @ '' object has no attribute '' @ quote ''get'')) \<and>
   fst (session_enter example_codec widget_session (widget_state (Some BadEncoding))) =
     Some (UnicodeDecodeError ''invalid start byte'')"
  by (simp add: ex_defs enter_defs deco_defs exit_read_def)

text \<open>The cases in which the load phase does recover: no file, a failing read, no JSON.\<close>

lemma enter_read_recovers:
  "fs (s_path s) \<in> {None, Some ReadFault, Some NotJSON, Some Truncated} \<Longrightarrow>
   enter_read s fs = Inr (VDict [])"
  by (auto simp: enter_read_def)

text \<open>
  C9, which the code does not meet. The claim: assigning an attribute of an instance of a
  read-only class fails with a descriptive error. \<open>protect\<close> takes two parameters
  (\<open>name\<close>, \<open>value\<close>), but as the \<open>__setattr__\<close> of the class it is called with three
  (the instance, the name, the value): the assignment fails with the \<open>TypeError\<close> of the
  call, and the \<open>AttributeError\<close> with the message about the read-only class, which a call
  with two arguments raises, is never reached.
\<close>

theorem protected_assignment_raises_arity_error:
  "setattr_obj \<lparr>obj_class = Inject_call readonly_inject Widget, obj_dict = []\<rparr> ''size'' (VInt 5) =
     Inl (TypeError ''Inject.__protect_class.<locals>.protect() takes 2 positional arguments but 3 were given'') \<and>
   call_function protect [VStr ''size'', VInt 5] =
     Inl (AttributeError ''property size cannot set, because this class is read-only.'')"
  by (simp add: ex_defs enter_defs deco_defs)


text \<open>
  The only \<open>ValueError\<close> a session lets out is the one of the integer digit limit, raised by
  \<open>json.load\<close> or \<open>json.dump\<close>; the codec's own are caught field by field.
\<close>

lemma open_read_ValueError: "open_read f = Inl (ValueError m) \<Longrightarrow> m = int_limit_message"
  by (cases f) simp_all

lemma json_load_ValueError: "json_load f = Inl (ValueError m) \<Longrightarrow> m = int_limit_message"
  by (cases f) (simp_all split: if_splits)

lemma json_load_beyond_limit:
  "\<not> int_str_ok n \<Longrightarrow> json_load (JSONText (VInt n)) = Inl (ValueError int_limit_message)"
  by simp

lemma py_get_not_ValueError: "py_get d k dflt \<noteq> Inl (ValueError m)"
  by (cases d) (simp_all add: py_get_def)

lemma py_setitem_not_ValueError: "py_setitem d k v \<noteq> Inl (ValueError m)"
  by (cases d) (simp_all add: py_setitem_def)

lemma first_error_map_ValueError:
  "first_error (map f xs) = Some (ValueError m) \<Longrightarrow> \<exists>x. x \<in> set xs \<and> f x = Some (ValueError m)"
proof (induction xs)
  case Nil
  then show ?case by simp
next
  case (Cons x xs)
  show ?case
  proof (cases "f x")
    case None
    with Cons show ?thesis by auto
  next
    case (Some e)
    with Cons.prems show ?thesis by auto
  qed
qed

lemma dump_error_ValueError: "dump_error v = Some (ValueError m) \<Longrightarrow> m = int_limit_message"
proof (induction v rule: dump_error.induct)
  case (4 xs)
  then have "first_error (map dump_error xs) = Some (ValueError m)" by simp
  from first_error_map_ValueError [OF this] obtain x
    where x: "x \<in> set xs" "dump_error x = Some (ValueError m)"
    by (elim exE conjE)
  from "4.IH" [OF x] show ?case .
next
  case (5 kvs)
  have "first_error (map dump_error (map snd kvs)) = Some (ValueError m)"
    using "5.prems" by simp
  from first_error_map_ValueError [OF this] obtain x
    where x: "x \<in> set (map snd kvs)" "dump_error x = Some (ValueError m)"
    by (elim exE conjE)
  from "5.IH" [OF x] show ?case .
qed (simp_all split: if_splits)

lemma enter_read_ValueError: "enter_read s fs = Inl (ValueError m) \<Longrightarrow> m = int_limit_message"
  using open_read_ValueError json_load_ValueError py_get_not_ValueError
  by (auto simp: enter_read_def split: option.splits sum.splits if_splits)

lemma exit_read_ValueError: "exit_read s fs = Inl (ValueError m) \<Longrightarrow> m = int_limit_message"
  using open_read_ValueError json_load_ValueError
  by (auto simp: exit_read_def split: option.splits sum.splits if_splits)

lemma enter_loop_not_ValueError: "fst (enter_loop cd s cc ks st) \<noteq> Some (ValueError m)"
  using py_get_not_ValueError
  by (induction ks arbitrary: st) (auto split: option.splits sum.splits)

lemma exit_loop_not_ValueError: "fst (exit_loop cd s obj ks (blk, out)) \<noteq> Some (ValueError m)"
  by (induction ks arbitrary: blk out) (auto split: option.splits sum.splits)

lemma persist_ValueError:
  "fst (persist io path doc fs) = Some (ValueError m) \<Longrightarrow> m = int_limit_message"
  using dump_error_ValueError [of doc m]
  by (auto simp: persist_def Let_def json_dump_def split: sum.splits option.splits if_splits)

lemma session_enter_ValueError:
  "fst (session_enter cd s st) = Some (ValueError m) \<Longrightarrow> m = int_limit_message"
  using enter_read_ValueError [of s "st_fs st" m]
    enter_loop_not_ValueError [of cd s _ "s_fields_to_inject s" st m]
  by (cases "enter_read s (st_fs st)") (auto simp: session_enter_def)

lemma build_document_ValueError:
  assumes "fst (build_document cd s st) = Inl (ValueError m)"
  shows "m = int_limit_message"
proof (cases "exit_read s (st_fs st)")
  case (Inl e)
  with assms exit_read_ValueError [of s "st_fs st" m] show ?thesis
    by (simp add: build_document_def)
next
  case (Inr full)
  obtain r blk out where lp:
    "exit_loop cd s (st_obj st) (s_fields_to_inject s) ([], st_out st) = (r, blk, out)"
    by (cases "exit_loop cd s (st_obj st) (s_fields_to_inject s) ([], st_out st)") auto
  with exit_loop_not_ValueError [of cd s "st_obj st" "s_fields_to_inject s" "[]" "st_out st" m]
  have "r \<noteq> Some (ValueError m)" by simp
  with assms Inr lp py_setitem_not_ValueError [of full "s_class_key s" "VDict blk" m]
  show ?thesis
    by (cases r) (simp_all add: build_document_def)
qed

lemma session_exit_ValueError:
  assumes "fst (session_exit cd io s st) = Some (ValueError m)"
  shows "m = int_limit_message"
proof (cases "build_document cd s st")
  case (Pair res out)
  show ?thesis
  proof (cases res)
    case (Inl e)
    with Pair assms build_document_ValueError [of cd s st m] show ?thesis
      by (simp add: session_exit_def)
  next
    case (Inr doc)
    with Pair assms persist_ValueError [of io "s_path s" doc "st_fs st" m] show ?thesis
      by (cases "persist io (s_path s) doc (st_fs st)")
         (simp add: session_exit_def split: if_splits)
  qed
qed

lemma with_session_ValueError:
  assumes "fst (with_session cd io s st) = Some (ValueError m)"
  shows "m = int_limit_message"
proof (cases "session_enter cd s st")
  case (Pair r st1)
  with assms session_enter_ValueError [of cd s st m] session_exit_ValueError [of cd io s st1 m]
  show ?thesis by (cases r) (simp_all add: with_session_def)
qed

lemma no_fields_message_not_limit: "no_fields_message cls \<noteq> int_limit_message"
  by (simp add: no_fields_message_def int_limit_message_def)

lemma discovery_fields_empty_iff:
  "fst (get_configurable_fields cls wl d) = [] \<longleftrightarrow> snd (get_configurable_fields cls wl d) = []"
proof -
  let ?r = "fields_loop cls (cls_hints cls) (case d of None \<Rightarrow> [] | Some d \<Rightarrow> d)
              (case wl of Some wl \<Rightarrow> wl | None \<Rightarrow> map fst (cls_hints cls)) ([], [])"
  have "set (map fst (fst ?r)) = set (snd ?r)"
    by (rule fields_loop_keys) simp
  then have "fst ?r = [] \<longleftrightarrow> snd ?r = []"
    by (metis list.map_disc_iff set_empty)
  then show ?thesis by (simp add: get_configurable_fields_def Let_def)
qed

text \<open>
  C7. When the original initialiser has returned: if discovery yields no field, the
  construction raises the \<open>ValueError\<close> that names the class and says what a configurable
  field needs, and the instance and the files are as the initialiser left them; if
  discovery yields a field, the construction does not raise that error.
\<close>

theorem construction_fails_exactly_without_fields:
  assumes "original_init st = (None, st1)"
  shows "(snd (get_configurable_fields cls (inj_fields deco) (Some (collect_defaults cls))) = [] \<longrightarrow>
            new_init deco cd io cls original_init st =
              (Some (ValueError (no_fields_message cls)), st1)) \<and>
         (snd (get_configurable_fields cls (inj_fields deco) (Some (collect_defaults cls))) \<noteq> [] \<longrightarrow>
            fst (new_init deco cd io cls original_init st) \<noteq>
              Some (ValueError (no_fields_message cls)))"
proof (cases "get_configurable_fields cls (inj_fields deco) (Some (collect_defaults cls))")
  case (Pair field_types valid_fields)
  with discovery_fields_empty_iff [of cls "inj_fields deco" "Some (collect_defaults cls)"]
  have iff: "field_types = [] \<longleftrightarrow> valid_fields = []" by simp
  show ?thesis
  proof (cases "valid_fields = []")
    case True
    with iff Pair assms show ?thesis by (simp add: new_init_def)
  next
    case False
    let ?s = "\<lparr>s_readonly = inj_readonly deco, s_path = inj_conf_path deco,
                s_field_types = field_types, s_class_key = cls_qualname cls,
                s_fields_to_inject = valid_fields\<rparr>"
    from False iff Pair assms
    have "new_init deco cd io cls original_init st = with_session cd io ?s st1"
      by (simp add: new_init_def)
    moreover have "fst (with_session cd io ?s st1) \<noteq> Some (ValueError (no_fields_message cls))"
      using with_session_ValueError [of cd io ?s st1 "no_fields_message cls"]
        no_fields_message_not_limit [of cls]
      by auto
    ultimately show ?thesis using False Pair by simp
  qed
qed

text \<open>
  The theorem at a class with no configurable field, whose construction fails, and at
  \<open>Widget\<close>, whose construction returns.
\<close>

theorem construction_fails_exactly_without_fields_witness:
  "no_init (fresh_state Bare None) = (None, fresh_state Bare None) \<and>
   snd (get_configurable_fields Bare (inj_fields plain_inject) (Some (collect_defaults Bare))) = [] \<and>
   new_init plain_inject example_codec io_ok Bare no_init (fresh_state Bare None) =
     (Some (ValueError ''No valid configurable fields found in Bare. Ensure fields have type annotations and default values, and are not private.''),
      fresh_state Bare None) \<and>
   snd (get_configurable_fields Widget (inj_fields plain_inject) (Some (collect_defaults Widget))) =
     [''size''] \<and>
   fst (new_init plain_inject example_codec io_ok Widget no_init (fresh_state Widget None)) = None"
proof -
  have i1: "no_init (fresh_state Bare None) = (None, fresh_state Bare None)"
    by (simp add: no_init_def)
  have i2: "no_init (fresh_state Widget None) = (None, fresh_state Widget None)"
    by (simp add: no_init_def)
  have e: "snd (get_configurable_fields Bare (inj_fields plain_inject) (Some (collect_defaults Bare))) = []"
    by (simp add: Bare_def deco_defs)
  have w: "snd (get_configurable_fields Widget (inj_fields plain_inject) (Some (collect_defaults Widget))) =
     [''size'']"
    by (simp add: Widget_def deco_defs)
  have m: "no_fields_message Bare = ''No valid configurable fields found in Bare. Ensure fields have type annotations and default values, and are not private.''"
    by (simp add: no_fields_message_def Bare_def)
  have ok: "fst (new_init plain_inject example_codec io_ok Widget no_init (fresh_state Widget None)) = None"
    by (simp add: ex_defs enter_defs deco_defs exit_defs)
  from construction_fails_exactly_without_fields
         [where original_init = no_init and st = "fresh_state Bare None"
            and ?st1.0 = "fresh_state Bare None" and cls = Bare and deco = plain_inject
            and cd = example_codec and io = io_ok] i1 e m
  have "new_init plain_inject example_codec io_ok Bare no_init (fresh_state Bare None) =
     (Some (ValueError ''No valid configurable fields found in Bare. Ensure fields have type annotations and default values, and are not private.''),
      fresh_state Bare None)"
    by simp
  with i1 e w ok show ?thesis by simp
qed

text \<open>The load phase raises no \<open>TypeError\<close>.\<close>

lemma open_read_not_TypeError: "open_read f \<noteq> Inl (TypeError m)"
  by (cases f) simp_all

lemma json_load_not_TypeError: "json_load f \<noteq> Inl (TypeError m)"
  by (cases f) simp_all

lemma py_get_not_TypeError: "py_get d k dflt \<noteq> Inl (TypeError m)"
  by (cases d) (simp_all add: py_get_def)

lemma enter_read_not_TypeError: "enter_read s fs \<noteq> Inl (TypeError m)"
  using open_read_not_TypeError json_load_not_TypeError py_get_not_TypeError
  by (auto simp: enter_read_def split: option.splits sum.splits if_splits)

lemma enter_loop_not_TypeError: "fst (enter_loop cd s cc ks st) \<noteq> Some (TypeError m)"
  using py_get_not_TypeError
  by (induction ks arbitrary: st) (auto split: option.splits sum.splits)

lemma session_enter_not_TypeError: "fst (session_enter cd s st) \<noteq> Some (TypeError m)"
  using enter_read_not_TypeError enter_loop_not_TypeError
  by (auto simp: session_enter_def split: sum.splits)

lemma session_enter_protected:
  "cls_setattr (obj_class (st_obj st)) = Some protect \<Longrightarrow>
   st_obj (snd (session_enter cd s st)) = st_obj st"
  by (cases "enter_read s (st_fs st)") (simp_all add: session_enter_def enter_loop_protected)

lemma with_session_protected:
  assumes "cls_setattr (obj_class (st_obj st)) = Some protect"
  shows "st_obj (snd (with_session cd io s st)) = st_obj st"
proof (cases "session_enter cd s st")
  case (Pair r st1)
  with session_enter_protected [OF assms, of cd s] have "st_obj st1 = st_obj st" by simp
  with Pair session_exit_obj [of cd io s st1] show ?thesis
    by (cases r) (simp_all add: with_session_def)
qed

text \<open>
  C10. \<open>Inject.__call__\<close> installs the setter override on the class before \<open>new_init\<close> can
  run. For a read-only decorator, once the original initialiser has returned an instance
  of the decorated class: the construction leaves the instance exactly as the initialiser
  left it, whatever the document holds; every assignment to the instance raises (the
  \<open>TypeError\<close> of the call of \<open>protect\<close>); and the load phase never lets a \<open>TypeError\<close>
  out, so each such raise is caught by the handler of its field.
\<close>

theorem readonly_construction_keeps_defaults:
  assumes "inj_readonly deco" and "original_init st0 = (None, st1)"
    and "obj_class (st_obj st1) = Inject_call deco cls"
  shows "st_obj (snd (new_init deco cd io (Inject_call deco cls) original_init st0)) = st_obj st1 \<and>
         (\<forall>key v. setattr_obj (st_obj st1) key v =
            Inl (TypeError ''Inject.__protect_class.<locals>.protect() takes 2 positional arguments but 3 were given'')) \<and>
         (\<forall>s m. fst (session_enter cd s st1) \<noteq> Some (TypeError m))"
proof -
  from assms(1,3) have prot: "cls_setattr (obj_class (st_obj st1)) = Some protect"
    by (simp add: Inject_call_def protect_class_def)
  have kept: "st_obj (snd (new_init deco cd io (Inject_call deco cls) original_init st0)) = st_obj st1"
    using assms(2) with_session_protected [OF prot]
    by (simp add: new_init_def split: prod.splits)
  from kept setattr_protected [OF prot] session_enter_not_TypeError show ?thesis by simp
qed

text \<open>
  The theorem at a read-only \<open>Widget\<close> and a document that holds \<open>size = 42\<close>: the
  construction returns and \<open>size\<close> is still the class default 10.
\<close>

theorem readonly_construction_keeps_defaults_witness:
  "inj_readonly readonly_inject \<and>
   no_init (fresh_state (Inject_call readonly_inject Widget) (Some (JSONText two_class_doc))) =
     (None, fresh_state (Inject_call readonly_inject Widget) (Some (JSONText two_class_doc))) \<and>
   st_fs (fresh_state (Inject_call readonly_inject Widget) (Some (JSONText two_class_doc))) conf_path =
     Some (JSONText (VDict [(''Other'', VDict [(''n'', VInt 7)]),
                            (''Widget'', VDict [(''size'', VInt 42)])])) \<and>
   fst (new_init readonly_inject example_codec io_ok (Inject_call readonly_inject Widget) no_init
          (fresh_state (Inject_call readonly_inject Widget) (Some (JSONText two_class_doc)))) = None \<and>
   getattr_obj
     (st_obj (snd (new_init readonly_inject example_codec io_ok (Inject_call readonly_inject Widget)
                     no_init
                     (fresh_state (Inject_call readonly_inject Widget)
                        (Some (JSONText two_class_doc)))))) ''size'' = Some (VInt 10)"
proof -
  let ?cls = "Inject_call readonly_inject Widget"
  let ?st = "fresh_state ?cls (Some (JSONText two_class_doc))"
  have ro: "inj_readonly readonly_inject" by (simp add: deco_defs)
  have i: "no_init ?st = (None, ?st)" by (simp add: no_init_def)
  have c: "obj_class (st_obj ?st) = ?cls" by (simp add: fresh_state_def)
  have d: "st_fs ?st conf_path =
     Some (JSONText (VDict [(''Other'', VDict [(''n'', VInt 7)]),
                            (''Widget'', VDict [(''size'', VInt 42)])]))"
    by (simp add: fresh_state_def two_class_doc_def)
  have g: "getattr_obj (st_obj ?st) ''size'' = Some (VInt 10)"
    by (simp add: ex_defs deco_defs getattr_obj_def)
  have ok: "fst (new_init readonly_inject example_codec io_ok ?cls no_init ?st) = None"
    by (simp add: ex_defs enter_defs deco_defs exit_defs)
  from readonly_construction_keeps_defaults
         [where deco = readonly_inject and original_init = no_init and ?st0.0 = ?st
            and ?st1.0 = ?st and cls = Widget and cd = example_codec and io = io_ok] ro i c
  have "st_obj (snd (new_init readonly_inject example_codec io_ok ?cls no_init ?st)) = st_obj ?st"
    by simp
  with ro i d g ok show ?thesis by simp
qed

section \<open>Field by field: the load and the save\<close>



lemma session_enter_fs: "st_fs (snd (session_enter cd s st)) = st_fs st"
  by (cases "enter_read s (st_fs st)") (simp_all add: session_enter_def enter_loop_fs)

lemma all_types_known:
  "list_all (\<lambda>k. map_of (s_field_types s) k \<noteq> None) ks \<Longrightarrow> types_known s obj ks"
  by (simp add: types_known_def list_all_iff)



lemma build_document_after_loop:
  assumes "fst (exit_loop cd s (st_obj st) (s_fields_to_inject s) ([], st_out st)) = None"
  shows "fst (build_document cd s st) =
     (case exit_read s (st_fs st) of
        Inl e \<Rightarrow> Inl e
      | Inr full_config \<Rightarrow>
          py_setitem full_config (s_class_key s)
            (VDict (fst (snd (exit_loop cd s (st_obj st) (s_fields_to_inject s) ([], st_out st))))))"
proof (cases "exit_loop cd s (st_obj st) (s_fields_to_inject s) ([], st_out st)")
  case (fields r blk out)
  with assms have "r = None" by simp
  with fields show ?thesis
    by (cases "exit_read s (st_fs st)") (simp_all add: build_document_def)
qed

text \<open>
  C6. For a session whose fields are a set with a declared type each, and a field the
  instance has. Load: if decoding the field's raw value fails, the load phase still
  returns, the field keeps its value, the warning for the field is printed, and every other
  field whose raw value decodes holds its decoded value afterwards (on a class that does
  not override assignment). Save: if encoding the field's value fails, the loop over the
  fields still returns, the new block has no entry for the field, the line for the field
  is printed, every field whose value encodes is in the block, and the document is built
  from that block.
\<close>

theorem codec_failure_is_contained:
  assumes "distinct (s_fields_to_inject s)" and "key \<in> set (s_fields_to_inject s)"
    and "list_all (\<lambda>k. map_of (s_field_types s) k \<noteq> None) (s_fields_to_inject s)"
    and "map_of (s_field_types s) key = Some ty"
    and "getattr_obj (st_obj st) key = Some cur"
  shows "(\<forall>block e.
            enter_read s (st_fs st) = Inr (VDict block) \<and>
            deserialize_value cd (case map_of block key of Some p \<Rightarrow> p | None \<Rightarrow> cur) ty = Inl e \<longrightarrow>
            fst (session_enter cd s st) = None \<and>
            getattr_obj (st_obj (snd (session_enter cd s st))) key = Some cur \<and>
            load_warning s key e \<in> set (st_out (snd (session_enter cd s st))) \<and>
            (\<forall>k cur' ty' v.
               k \<in> set (s_fields_to_inject s) \<and> getattr_obj (st_obj st) k = Some cur' \<and>
               map_of (s_field_types s) k = Some ty' \<and>
               deserialize_value cd (case map_of block k of Some p \<Rightarrow> p | None \<Rightarrow> cur') ty' = Inr v \<and>
               cls_setattr (obj_class (st_obj st)) = None \<longrightarrow>
               getattr_obj (st_obj (snd (session_enter cd s st))) k = Some v)) \<and>
         (\<forall>e. serialize_value cd cur ty = Inl e \<longrightarrow>
            fst (exit_loop cd s (st_obj st) (s_fields_to_inject s) ([], st_out st)) = None \<and>
            map_of (fst (snd (exit_loop cd s (st_obj st) (s_fields_to_inject s) ([], st_out st)))) key =
              None \<and>
            save_skip s key e \<in>
              set (snd (snd (exit_loop cd s (st_obj st) (s_fields_to_inject s) ([], st_out st)))) \<and>
            (\<forall>k val ty' enc.
               k \<in> set (s_fields_to_inject s) \<and> getattr_obj (st_obj st) k = Some val \<and>
               map_of (s_field_types s) k = Some ty' \<and> serialize_value cd val ty' = Inr enc \<longrightarrow>
               map_of (fst (snd (exit_loop cd s (st_obj st) (s_fields_to_inject s) ([], st_out st)))) k =
                 Some enc) \<and>
            fst (build_document cd s st) =
              (case exit_read s (st_fs st) of
                 Inl e' \<Rightarrow> Inl e'
               | Inr full_config \<Rightarrow>
                   py_setitem full_config (s_class_key s)
                     (VDict (fst (snd (exit_loop cd s (st_obj st) (s_fields_to_inject s)
                                         ([], st_out st)))))))"
proof -
  let ?ks = "s_fields_to_inject s"
  have tk: "types_known s (st_obj st) ?ks" by (rule all_types_known [OF assms(3)])
  have load: "fst (session_enter cd s st) = None \<and>
      getattr_obj (st_obj (snd (session_enter cd s st))) key = Some cur \<and>
      load_warning s key e \<in> set (st_out (snd (session_enter cd s st))) \<and>
      (\<forall>k cur' ty' v.
         k \<in> set ?ks \<and> getattr_obj (st_obj st) k = Some cur' \<and>
         map_of (s_field_types s) k = Some ty' \<and>
         deserialize_value cd (case map_of block k of Some p \<Rightarrow> p | None \<Rightarrow> cur') ty' = Inr v \<and>
         cls_setattr (obj_class (st_obj st)) = None \<longrightarrow>
         getattr_obj (st_obj (snd (session_enter cd s st))) k = Some v)"
    if rd: "enter_read s (st_fs st) = Inr (VDict block)"
      and bad: "deserialize_value cd (case map_of block key of Some p \<Rightarrow> p | None \<Rightarrow> cur) ty = Inl e"
    for block e
  proof -
    have enter: "session_enter cd s st = enter_loop cd s (VDict block) ?ks st"
      using rd by (simp add: session_enter_def)
    have r: "fst (session_enter cd s st) = None"
      unfolding enter by (rule enter_loop_returns [OF tk])
    have f: "getattr_obj (st_obj (snd (session_enter cd s st))) key = Some cur \<and>
        load_warning s key e \<in> set (st_out (snd (session_enter cd s st)))"
      unfolding enter
      by (rule enter_loop_decode_failed [OF assms(1) assms(2) tk assms(5) assms(4) bad])
    have others: "getattr_obj (st_obj (snd (session_enter cd s st))) k = Some v"
      if "k \<in> set ?ks" and "getattr_obj (st_obj st) k = Some cur'"
        and "map_of (s_field_types s) k = Some ty'"
        and "deserialize_value cd (case map_of block k of Some p \<Rightarrow> p | None \<Rightarrow> cur') ty' = Inr v"
        and "cls_setattr (obj_class (st_obj st)) = None" for k cur' ty' v
      unfolding enter
      by (rule enter_loop_decoded [OF assms(1) that(1) tk that(5) that(2) that(3) that(4)])
    have O: "\<forall>k cur' ty' v.
         k \<in> set ?ks \<and> getattr_obj (st_obj st) k = Some cur' \<and>
         map_of (s_field_types s) k = Some ty' \<and>
         deserialize_value cd (case map_of block k of Some p \<Rightarrow> p | None \<Rightarrow> cur') ty' = Inr v \<and>
         cls_setattr (obj_class (st_obj st)) = None \<longrightarrow>
         getattr_obj (st_obj (snd (session_enter cd s st))) k = Some v"
      by (intro allI impI, elim conjE, rule others)
    show ?thesis
      by (rule conjI [OF r conjI [OF conjunct1 [OF f] conjI [OF conjunct2 [OF f] O]]])
  qed
  let ?lp = "exit_loop cd s (st_obj st) ?ks ([], st_out st)"
  have save: "fst ?lp = None \<and> map_of (fst (snd ?lp)) key = None \<and>
      save_skip s key e \<in> set (snd (snd ?lp)) \<and>
      (\<forall>k val ty' enc.
         k \<in> set ?ks \<and> getattr_obj (st_obj st) k = Some val \<and>
         map_of (s_field_types s) k = Some ty' \<and> serialize_value cd val ty' = Inr enc \<longrightarrow>
         map_of (fst (snd ?lp)) k = Some enc) \<and>
      fst (build_document cd s st) =
        (case exit_read s (st_fs st) of
           Inl e' \<Rightarrow> Inl e'
         | Inr full_config \<Rightarrow> py_setitem full_config (s_class_key s) (VDict (fst (snd ?lp))))"
    if bad: "serialize_value cd cur ty = Inl e" for e
  proof -
    have r: "fst ?lp = None" by (rule exit_loop_returns [OF assms(3)])
    from exit_loop_encode_failed [OF assms(1) assms(2) assms(3) assms(5) assms(4) bad,
        of "[]" "st_out st"]
    have f1: "map_of (fst (snd ?lp)) key = None"
      and f2: "save_skip s key e \<in> set (snd (snd ?lp))"
      by simp_all
    have others: "map_of (fst (snd ?lp)) k = Some enc"
      if "k \<in> set ?ks" and "getattr_obj (st_obj st) k = Some val"
        and "map_of (s_field_types s) k = Some ty'" and "serialize_value cd val ty' = Inr enc"
      for k val ty' enc
      by (rule exit_loop_encoded [OF assms(1) that(1) assms(3) that(2) that(3) that(4)])
    have O: "\<forall>k val ty' enc.
         k \<in> set ?ks \<and> getattr_obj (st_obj st) k = Some val \<and>
         map_of (s_field_types s) k = Some ty' \<and> serialize_value cd val ty' = Inr enc \<longrightarrow>
         map_of (fst (snd ?lp)) k = Some enc"
      by (intro allI impI, elim conjE, rule others)
    note B = build_document_after_loop [OF r]
    show ?thesis
      by (rule conjI [OF r conjI [OF f1 conjI [OF f2 conjI [OF O B]]]])
  qed
  have L: "\<forall>block e.
      enter_read s (st_fs st) = Inr (VDict block) \<and>
      deserialize_value cd (case map_of block key of Some p \<Rightarrow> p | None \<Rightarrow> cur) ty = Inl e \<longrightarrow>
      fst (session_enter cd s st) = None \<and>
      getattr_obj (st_obj (snd (session_enter cd s st))) key = Some cur \<and>
      load_warning s key e \<in> set (st_out (snd (session_enter cd s st))) \<and>
      (\<forall>k cur' ty' v.
         k \<in> set ?ks \<and> getattr_obj (st_obj st) k = Some cur' \<and>
         map_of (s_field_types s) k = Some ty' \<and>
         deserialize_value cd (case map_of block k of Some p \<Rightarrow> p | None \<Rightarrow> cur') ty' = Inr v \<and>
         cls_setattr (obj_class (st_obj st)) = None \<longrightarrow>
         getattr_obj (st_obj (snd (session_enter cd s st))) k = Some v)"
    by (intro allI impI, elim conjE, rule load)
  have S: "\<forall>e. serialize_value cd cur ty = Inl e \<longrightarrow>
      fst ?lp = None \<and> map_of (fst (snd ?lp)) key = None \<and>
      save_skip s key e \<in> set (snd (snd ?lp)) \<and>
      (\<forall>k val ty' enc.
         k \<in> set ?ks \<and> getattr_obj (st_obj st) k = Some val \<and>
         map_of (s_field_types s) k = Some ty' \<and> serialize_value cd val ty' = Inr enc \<longrightarrow>
         map_of (fst (snd ?lp)) k = Some enc) \<and>
      fst (build_document cd s st) =
        (case exit_read s (st_fs st) of
           Inl e' \<Rightarrow> Inl e'
         | Inr full_config \<Rightarrow> py_setitem full_config (s_class_key s) (VDict (fst (snd ?lp))))"
    by (intro allI impI, rule save)
  show ?thesis by (rule conjI [OF L S])
qed

lemmas gadget_defs = gadget_session_def gadget_state_def gadget_doc_def Gadget_def

text \<open>
  The theorem at three fields, of which \<open>b\<close> fails to decode and to encode: \<open>a\<close> and \<open>c\<close> are
  loaded and saved, \<open>b\<close> keeps its value and is left out of the block.
\<close>

theorem codec_failure_is_contained_witness:
  "distinct (s_fields_to_inject gadget_session) \<and>
   ''b'' \<in> set (s_fields_to_inject gadget_session) \<and>
   list_all (\<lambda>k. map_of (s_field_types gadget_session) k \<noteq> None)
     (s_fields_to_inject gadget_session) \<and>
   map_of (s_field_types gadget_session) ''b'' = Some TInt \<and>
   getattr_obj (st_obj gadget_state) ''b'' = Some (VStr ''bad'') \<and>
   enter_read gadget_session (st_fs gadget_state) =
     Inr (VDict [(''a'', VInt 5), (''b'', VStr ''oops''), (''c'', VStr ''y'')]) \<and>
   deserialize_value example_codec (VStr ''oops'') TInt = Inl (ValueError ''not an int'') \<and>
   serialize_value example_codec (VStr ''bad'') TInt = Inl (ValueError ''not an int'') \<and>
   fst (session_enter example_codec gadget_session gadget_state) = None \<and>
   getattr_obj (st_obj (snd (session_enter example_codec gadget_session gadget_state))) ''b'' =
     Some (VStr ''bad'') \<and>
   load_warning gadget_session ''b'' (ValueError ''not an int'') \<in>
     set (st_out (snd (session_enter example_codec gadget_session gadget_state))) \<and>
   getattr_obj (st_obj (snd (session_enter example_codec gadget_session gadget_state))) ''a'' =
     Some (VInt 5) \<and>
   getattr_obj (st_obj (snd (session_enter example_codec gadget_session gadget_state))) ''c'' =
     Some (VStr ''y'') \<and>
   fst (exit_loop example_codec gadget_session (st_obj gadget_state)
          (s_fields_to_inject gadget_session) ([], st_out gadget_state)) = None \<and>
   map_of (fst (snd (exit_loop example_codec gadget_session (st_obj gadget_state)
                       (s_fields_to_inject gadget_session) ([], st_out gadget_state)))) ''b'' = None \<and>
   save_skip gadget_session ''b'' (ValueError ''not an int'') \<in>
     set (snd (snd (exit_loop example_codec gadget_session (st_obj gadget_state)
                      (s_fields_to_inject gadget_session) ([], st_out gadget_state)))) \<and>
   map_of (fst (snd (exit_loop example_codec gadget_session (st_obj gadget_state)
                       (s_fields_to_inject gadget_session) ([], st_out gadget_state)))) ''a'' =
     Some (VInt 1) \<and>
   map_of (fst (snd (exit_loop example_codec gadget_session (st_obj gadget_state)
                       (s_fields_to_inject gadget_session) ([], st_out gadget_state)))) ''c'' =
     Some (VStr ''x'')"
proof -
  let ?s = gadget_session
  let ?st = gadget_state
  let ?block = "[(''a'', VInt 5), (''b'', VStr ''oops''), (''c'', VStr ''y'')]"
  have h1: "distinct (s_fields_to_inject ?s)" by (simp add: gadget_defs)
  have h2: "''b'' \<in> set (s_fields_to_inject ?s)" by (simp add: gadget_defs)
  have h3: "list_all (\<lambda>k. map_of (s_field_types ?s) k \<noteq> None) (s_fields_to_inject ?s)"
    by (simp add: gadget_defs)
  have h4: "map_of (s_field_types ?s) ''b'' = Some TInt" by (simp add: gadget_defs)
  have h5: "getattr_obj (st_obj ?st) ''b'' = Some (VStr ''bad'')"
    by (simp add: gadget_defs getattr_obj_def)
  have rd: "enter_read ?s (st_fs ?st) = Inr (VDict ?block)"
    by (simp add: gadget_defs ex_defs enter_defs)
  have d0: "deserialize_value example_codec (VStr ''oops'') TInt = Inl (ValueError ''not an int'')"
    by (simp add: example_codec_def example_convert_def)
  have s0: "serialize_value example_codec (VStr ''bad'') TInt = Inl (ValueError ''not an int'')"
    by (simp add: example_codec_def example_convert_def)
  have bad: "deserialize_value example_codec
      (case map_of ?block ''b'' of Some p \<Rightarrow> p | None \<Rightarrow> VStr ''bad'') TInt =
      Inl (ValueError ''not an int'')"
    using d0 by simp
  note T = codec_failure_is_contained [OF h1 h2 h3 h4 h5, of example_codec]
  note L = T [THEN conjunct1, rule_format, OF conjI [OF rd bad]]
  note S = T [THEN conjunct2, rule_format, OF s0]
  note L4 = L [THEN conjunct2, THEN conjunct2, THEN conjunct2, rule_format]
  note S4 = S [THEN conjunct2, THEN conjunct2, THEN conjunct2, THEN conjunct1, rule_format]
  have l1: "fst (session_enter example_codec ?s ?st) = None" by (rule L [THEN conjunct1])
  have l2: "getattr_obj (st_obj (snd (session_enter example_codec ?s ?st))) ''b'' =
      Some (VStr ''bad'')"
    by (rule L [THEN conjunct2, THEN conjunct1])
  have l3: "load_warning ?s ''b'' (ValueError ''not an int'') \<in>
      set (st_out (snd (session_enter example_codec ?s ?st)))"
    by (rule L [THEN conjunct2, THEN conjunct2, THEN conjunct1])
  have la: "getattr_obj (st_obj (snd (session_enter example_codec ?s ?st))) ''a'' = Some (VInt 5)"
    by (rule L4 [of "''a''" "VInt 1" TInt "VInt 5"])
       (simp add: gadget_defs getattr_obj_def example_codec_def example_convert_def)
  have lc: "getattr_obj (st_obj (snd (session_enter example_codec ?s ?st))) ''c'' =
      Some (VStr ''y'')"
    by (rule L4 [of "''c''" "VStr ''x''" TStr "VStr ''y''"])
       (simp add: gadget_defs getattr_obj_def example_codec_def example_convert_def)
  let ?lp = "exit_loop example_codec ?s (st_obj ?st) (s_fields_to_inject ?s) ([], st_out ?st)"
  have e1: "fst ?lp = None" by (rule S [THEN conjunct1])
  have e2: "map_of (fst (snd ?lp)) ''b'' = None" by (rule S [THEN conjunct2, THEN conjunct1])
  have e3: "save_skip ?s ''b'' (ValueError ''not an int'') \<in> set (snd (snd ?lp))"
    by (rule S [THEN conjunct2, THEN conjunct2, THEN conjunct1])
  have ea: "map_of (fst (snd ?lp)) ''a'' = Some (VInt 1)"
    by (rule S4 [of "''a''" "VInt 1" TInt "VInt 1"])
       (simp add: gadget_defs getattr_obj_def example_codec_def example_convert_def)
  have ec: "map_of (fst (snd ?lp)) ''c'' = Some (VStr ''x'')"
    by (rule S4 [of "''c''" "VStr ''x''" TStr "VStr ''x''"])
       (simp add: gadget_defs getattr_obj_def example_codec_def example_convert_def)
  show ?thesis
    by (intro conjI h1 h2 h3 h4 h5 rd d0 s0 l1 l2 l3 la lc e1 e2 e3 ea ec)
qed

end
